theory Spec2Isabelle
  imports Complex_Main
begin

section \<open>Python values used by the facade\<close>

text \<open>
  The facade \<^verbatim>\<open>SlicerTools\<close> (src/SlicerTools.py) forwards every request to a remote
  3D Slicer through an RPyC connection, formats strings and logs timings. The embedding
  keeps the Python control flow of each method; the remote application is a state
  (\<open>world\<close>) with the scene the methods read and change, the list of remote calls made
  so far, and a plan of which remote calls raise.

  An exception is an instance of Python's \<^verbatim>\<open>Exception\<close>: its class name and the text
  \<^verbatim>\<open>str(e)\<close> gives. Interrupts delivered from outside a step (KeyboardInterrupt,
  SystemExit), which are not instances of \<^verbatim>\<open>Exception\<close>, are not steps of these methods
  and are not part of the model.
\<close>

datatype exn = Exception (exn_class: string) (exn_str: string)

abbreviation ValueError :: "string \<Rightarrow> exn" where
  "ValueError msg \<equiv> Exception ''ValueError'' msg"

abbreviation TypeError :: "string \<Rightarrow> exn" where
  "TypeError msg \<equiv> Exception ''TypeError'' msg"

abbreviation AttributeError :: "string \<Rightarrow> exn" where
  "AttributeError msg \<equiv> Exception ''AttributeError'' msg"

text \<open>\<^verbatim>\<open>sep.join(xs)\<close> of Python.\<close>

fun join :: "string \<Rightarrow> string list \<Rightarrow> string" where
  "join sep [] = []"
| "join sep [x] = x"
| "join sep (x # y # ys) = x @ sep @ join sep (y # ys)"

text \<open>A text between single quotes, as the messages of the facade and of Python have it.\<close>

definition quoted :: "string \<Rightarrow> string" where
  "quoted s = [CHR 0x27] @ s @ [CHR 0x27]"

text \<open>\<^verbatim>\<open>str(n)\<close> for a non-negative integer.\<close>

definition digit_char :: "nat \<Rightarrow> char" where
  "digit_char d = ''0123456789'' ! d"

fun str_nat :: "nat \<Rightarrow> string" where
  "str_nat n = (if n < 10 then [digit_char n] else str_nat (n div 10) @ [digit_char (n mod 10)])"

declare str_nat.simps [simp del]

text \<open>
  A Python float: a finite value (every double is a rational number; the sign of a
  negative zero is kept apart), an infinity or a NaN. \<^verbatim>\<open>f"{x:.pf}"\<close> prints a finite
  value correctly rounded (ties to even) with \<open>p\<close> digits after the point, and
  \<^verbatim>\<open>inf\<close>, \<^verbatim>\<open>-inf\<close>, \<^verbatim>\<open>nan\<close> otherwise.
\<close>

datatype pyfloat = Finite rat | NegZero | PosInf | NegInf | NaN

definition round_half_even :: "rat \<Rightarrow> int" where
  "round_half_even y =
     (let f = \<lfloor>y\<rfloor>; r = y - of_int f
      in if r < 1 / 2 then f else if 1 / 2 < r then f + 1 else if even f then f else f + 1)"

definition zfill :: "nat \<Rightarrow> string \<Rightarrow> string" where
  "zfill p s = replicate (p - length s) CHR ''0'' @ s"

definition format_fixed :: "nat \<Rightarrow> rat \<Rightarrow> string" where
  "format_fixed p q =
     (let n = nat (round_half_even (q * 10 ^ p))
      in str_nat (n div 10 ^ p) @
         (if p = 0 then [] else ''.'' @ zfill p (str_nat (n mod 10 ^ p))))"

fun format_f :: "nat \<Rightarrow> pyfloat \<Rightarrow> string" where
  "format_f p (Finite q) = (if q < 0 then ''-'' else []) @ format_fixed p \<bar>q\<bar>"
| "format_f p NegZero = ''-'' @ format_fixed p 0"
| "format_f p PosInf = ''inf''"
| "format_f p NegInf = ''-inf''"
| "format_f p NaN = ''nan''"

fun is_finite :: "pyfloat \<Rightarrow> bool" where
  "is_finite (Finite q) = True"
| "is_finite NegZero = True"
| "is_finite x = False"

definition is_digit :: "char \<Rightarrow> bool" where
  "is_digit c = (c \<in> set ''0123456789'')"

section \<open>The remote application\<close>

text \<open>
  Modelled from the spec: the scene graph of the remote application, which is not code
  of this repository. A node has an identifier, a display name, a class (with its base
  classes, for \<^verbatim>\<open>IsA\<close>), possibly a display node (given by its class name), and, for a
  segmentation, its segments; the display node holds each segment's visibility and
  colour and the flag of the batch-modification region (\<^verbatim>\<open>StartModify\<close> sets it and
  returns the old value, \<^verbatim>\<open>EndModify\<close> restores the value it is given). Remote objects
  are referred to by the position of their node in the scene.
\<close>

type_synonym node_ref = nat

record segment =
  seg_id :: string
  seg_name :: string
  seg_color :: "pyfloat \<times> pyfloat \<times> pyfloat"
  seg_visible :: bool

record node =
  node_id :: string
  node_name :: string
  node_class :: string
  node_bases :: "string list"
  node_display :: "string option"
  batch_open :: bool
  node_segments :: "segment list"

record layout_manager =
  threeD_widget :: bool
  slice_widgets :: "string list"

text \<open>The remote calls, as the methods issue them.\<close>

datatype call =
    slicer_util_getNodesByClass_call string
  | slicer_util_getNode_call string
  | slicer_mrmlScene_GetNodesByName_call string
  | slicer_app_layoutManager_call
  | GetNumberOfItems_call "node_ref list"
  | GetItemAsObject_call "node_ref list" nat
  | IsA_call node_ref string
  | GetClassName_call node_ref
  | GetDisplayNode_call node_ref
  | GetVisibleSegmentIDs_call node_ref
  | GetSegmentation_call node_ref
  | GetSegment_call node_ref string
  | GetName_call node_ref string
  | GetSegmentColor_call node_ref string
  | StartModify_call node_ref
  | SetAllSegmentsVisibility_call node_ref bool
  | EndModify_call node_ref bool
  | GetSegmentIdBySegmentName_call node_ref string
  | SetSegmentVisibility_call node_ref string bool
  | threeDWidget_call nat
  | threeDView_call
  | resetFocalPoint_call
  | sliceWidget_call string
  | sliceController_call string
  | fitSliceToBackground_call string

text \<open>
  The state: the scene and the layout of the remote application; \<open>fault\<close>, which says
  for the calls made so far and the next call whether that call raises; \<open>calls\<close>, the
  remote calls made so far; the readings \<^verbatim>\<open>time.time()\<close> gives, in order, and how
  many were taken (a reading is a finite number of seconds; the difference of two
  readings is taken exactly); and the lines \<^verbatim>\<open>logging.info\<close> has written.
\<close>

record world =
  nodes :: "node list"
  layout :: "layout_manager option"
  fault :: "call list \<Rightarrow> call \<Rightarrow> exn option"
  calls :: "call list"
  clock :: "nat \<Rightarrow> rat"
  clock_reads :: nat
  log_lines :: "string list"

type_synonym 'a io = "world \<Rightarrow> (exn + 'a) \<times> world"

definition return :: "'a \<Rightarrow> 'a io" where
  "return x w = (Inr x, w)"

definition raise :: "exn \<Rightarrow> 'a io" where
  "raise e w = (Inl e, w)"

definition bind :: "'a io \<Rightarrow> ('a \<Rightarrow> 'b io) \<Rightarrow> 'b io" where
  "bind m f w = (case m w of (Inl e, w1) \<Rightarrow> (Inl e, w1) | (Inr x, w1) \<Rightarrow> f x w1)"

text \<open>\<^verbatim>\<open>try: m except Exception as e: h(e)\<close>.\<close>

definition try_except :: "'a io \<Rightarrow> (exn \<Rightarrow> 'a io) \<Rightarrow> 'a io" where
  "try_except m h w = (case m w of (Inl e, w1) \<Rightarrow> h e w1 | (Inr x, w1) \<Rightarrow> (Inr x, w1))"

text \<open>
  A remote call is recorded, then raises if the plan says so, and otherwise acts on the
  remote state and returns its value.
\<close>

definition remote :: "call \<Rightarrow> (world \<Rightarrow> 'a \<times> world) \<Rightarrow> 'a io" where
  "remote c act w =
     (let w1 = w\<lparr>calls := calls w @ [c]\<rparr>
      in case fault w (calls w) c of
           Some e \<Rightarrow> (Inl e, w1)
         | None \<Rightarrow> (case act w1 of (x, w2) \<Rightarrow> (Inr x, w2)))"

definition query :: "(world \<Rightarrow> 'a) \<Rightarrow> world \<Rightarrow> 'a \<times> world" where
  "query f w = (f w, w)"

definition update_node :: "node_ref \<Rightarrow> (node \<Rightarrow> node) \<Rightarrow> world \<Rightarrow> unit \<times> world" where
  "update_node i f w = ((), w\<lparr>nodes := (nodes w)[i := f (nodes w ! i)]\<rparr>)"

text \<open>Calling a method on \<^verbatim>\<open>None\<close> raises AttributeError.\<close>

definition method_of :: "'r option \<Rightarrow> string \<Rightarrow> ('r \<Rightarrow> 'a io) \<Rightarrow> 'a io" where
  "method_of obj name m =
     (case obj of
        None \<Rightarrow> raise (AttributeError (quoted ''NoneType'' @ '' object has no attribute '' @ quoted name))
      | Some r \<Rightarrow> m r)"

definition time_time :: "rat io" where
  "time_time w = (Inr (clock w (clock_reads w)), w\<lparr>clock_reads := Suc (clock_reads w)\<rparr>)"

definition logging_info :: "string \<Rightarrow> unit io" where
  "logging_info line w = (Inr (), w\<lparr>log_lines := log_lines w @ [line]\<rparr>)"

text \<open>\<^verbatim>\<open>f"{name} executed in {toc - tic:.4f} seconds"\<close>.\<close>

definition executed_in :: "string \<Rightarrow> rat \<Rightarrow> rat \<Rightarrow> string" where
  "executed_in name tic toc = name @ '' executed in '' @ format_f 4 (Finite (toc - tic)) @ '' seconds''"

subsection \<open>The remote methods\<close>

definition is_a :: "node \<Rightarrow> string \<Rightarrow> bool" where
  "is_a n c = (c = node_class n \<or> c \<in> set (node_bases n))"

definition slicer_util_getNodesByClass :: "string \<Rightarrow> string list io" where
  "slicer_util_getNodesByClass class_name =
     remote (slicer_util_getNodesByClass_call class_name)
       (query (\<lambda>w. map node_name (filter (\<lambda>n. is_a n class_name) (nodes w))))"

definition find_node :: "string \<Rightarrow> node list \<Rightarrow> node_ref option" where
  "find_node pat ns =
     (case filter (\<lambda>i. node_name (ns ! i) = pat \<or> node_id (ns ! i) = pat) [0..<length ns] of
        [] \<Rightarrow> None
      | i # _ \<Rightarrow> Some i)"

definition slicer_util_getNode :: "string \<Rightarrow> node_ref io" where
  "slicer_util_getNode pat =
     bind (remote (slicer_util_getNode_call pat) (query (\<lambda>w. find_node pat (nodes w))))
       (\<lambda>r. case r of
          None \<Rightarrow> raise (Exception ''MRMLNodeNotFoundException''
                    (''could not find nodes in the scene by name or id '' @ quoted pat))
        | Some i \<Rightarrow> return i)"

definition nodes_by_name :: "string \<Rightarrow> node list \<Rightarrow> node_ref list" where
  "nodes_by_name name ns = filter (\<lambda>i. node_name (ns ! i) = name) [0..<length ns]"

definition slicer_mrmlScene_GetNodesByName :: "string \<Rightarrow> node_ref list io" where
  "slicer_mrmlScene_GetNodesByName name =
     remote (slicer_mrmlScene_GetNodesByName_call name) (query (\<lambda>w. nodes_by_name name (nodes w)))"

definition slicer_app_layoutManager :: "layout_manager option io" where
  "slicer_app_layoutManager = remote slicer_app_layoutManager_call (query layout)"

definition GetNumberOfItems :: "node_ref list \<Rightarrow> nat io" where
  "GetNumberOfItems coll = remote (GetNumberOfItems_call coll) (query (\<lambda>w. length coll))"

definition GetItemAsObject :: "node_ref list \<Rightarrow> nat \<Rightarrow> node_ref option io" where
  "GetItemAsObject coll k =
     remote (GetItemAsObject_call coll k)
       (query (\<lambda>w. if k < length coll then Some (coll ! k) else None))"

definition IsA :: "node_ref \<Rightarrow> string \<Rightarrow> bool io" where
  "IsA i c = remote (IsA_call i c) (query (\<lambda>w. is_a (nodes w ! i) c))"

definition GetClassName :: "node_ref \<Rightarrow> string io" where
  "GetClassName i = remote (GetClassName_call i) (query (\<lambda>w. node_class (nodes w ! i)))"

definition GetDisplayNode :: "node_ref \<Rightarrow> node_ref option io" where
  "GetDisplayNode i =
     remote (GetDisplayNode_call i)
       (query (\<lambda>w. case node_display (nodes w ! i) of None \<Rightarrow> None | Some c \<Rightarrow> Some i))"

text \<open>
  The segment methods exist on a segmentation node and its display node only; on
  another object the attribute lookup raises.
\<close>

definition segmentation_only :: "node_ref \<Rightarrow> string \<Rightarrow> string \<Rightarrow> call \<Rightarrow> (world \<Rightarrow> 'a \<times> world) \<Rightarrow> 'a io" where
  "segmentation_only i cls name c act w =
     (if is_a (nodes w ! i) ''vtkMRMLSegmentationNode'' then remote c act w
      else raise (AttributeError (quoted cls @ '' object has no attribute '' @ quoted name)) w)"

definition display_class :: "node \<Rightarrow> string" where
  "display_class n = (case node_display n of None \<Rightarrow> ''NoneType'' | Some c \<Rightarrow> c)"

definition GetVisibleSegmentIDs :: "node_ref \<Rightarrow> string list io" where
  "GetVisibleSegmentIDs d w =
     segmentation_only d (display_class (nodes w ! d)) ''GetVisibleSegmentIDs''
       (GetVisibleSegmentIDs_call d)
       (query (\<lambda>w. map seg_id (filter seg_visible (node_segments (nodes w ! d))))) w"

definition GetSegmentation :: "node_ref \<Rightarrow> node_ref io" where
  "GetSegmentation i w =
     segmentation_only i (node_class (nodes w ! i)) ''GetSegmentation''
       (GetSegmentation_call i) (query (\<lambda>w. i)) w"

definition find_segment :: "string \<Rightarrow> segment list \<Rightarrow> segment option" where
  "find_segment sid segs = List.find (\<lambda>s. seg_id s = sid) segs"

definition GetSegment :: "node_ref \<Rightarrow> string \<Rightarrow> string option io" where
  "GetSegment i sid =
     remote (GetSegment_call i sid)
       (query (\<lambda>w. case find_segment sid (node_segments (nodes w ! i)) of
                      None \<Rightarrow> None | Some s \<Rightarrow> Some sid))"

definition GetName :: "node_ref \<Rightarrow> string \<Rightarrow> string io" where
  "GetName i sid =
     remote (GetName_call i sid)
       (query (\<lambda>w. case find_segment sid (node_segments (nodes w ! i)) of
                      None \<Rightarrow> [] | Some s \<Rightarrow> seg_name s))"

text \<open>
  \<^verbatim>\<open>GetSegmentColor(segmentId, color)\<close> writes the three channels into the buffer it
  is given; for an unknown segment the buffer stays as it was.
\<close>

definition GetSegmentColor :: "node_ref \<Rightarrow> string \<Rightarrow> pyfloat \<times> pyfloat \<times> pyfloat \<Rightarrow> (pyfloat \<times> pyfloat \<times> pyfloat) io" where
  "GetSegmentColor d sid color w =
     segmentation_only d (display_class (nodes w ! d)) ''GetSegmentColor''
       (GetSegmentColor_call d sid)
       (query (\<lambda>w. case find_segment sid (node_segments (nodes w ! d)) of
                      None \<Rightarrow> color | Some s \<Rightarrow> seg_color s)) w"

definition StartModify :: "node_ref \<Rightarrow> bool io" where
  "StartModify d =
     remote (StartModify_call d)
       (\<lambda>w. (batch_open (nodes w ! d),
              w\<lparr>nodes := (nodes w)[d := (nodes w ! d)\<lparr>batch_open := True\<rparr>]\<rparr>))"

definition EndModify :: "node_ref \<Rightarrow> bool \<Rightarrow> unit io" where
  "EndModify d wasModified =
     remote (EndModify_call d wasModified) (update_node d (\<lambda>n. n\<lparr>batch_open := wasModified\<rparr>))"

definition SetAllSegmentsVisibility :: "node_ref \<Rightarrow> bool \<Rightarrow> unit io" where
  "SetAllSegmentsVisibility d visible w =
     segmentation_only d (display_class (nodes w ! d)) ''SetAllSegmentsVisibility''
       (SetAllSegmentsVisibility_call d visible)
       (update_node d (\<lambda>n. n\<lparr>node_segments := map (\<lambda>s. s\<lparr>seg_visible := visible\<rparr>) (node_segments n)\<rparr>)) w"

text \<open>An unknown segment name gives the empty identifier.\<close>

definition segment_id_by_name :: "string \<Rightarrow> segment list \<Rightarrow> string" where
  "segment_id_by_name name segs =
     (case List.find (\<lambda>s. seg_name s = name) segs of None \<Rightarrow> [] | Some s \<Rightarrow> seg_id s)"

definition GetSegmentIdBySegmentName :: "node_ref \<Rightarrow> string \<Rightarrow> string io" where
  "GetSegmentIdBySegmentName i name =
     remote (GetSegmentIdBySegmentName_call i name)
       (query (\<lambda>w. segment_id_by_name name (node_segments (nodes w ! i))))"

text \<open>Setting the visibility of an identifier that names no segment changes nothing.\<close>

definition set_visible :: "string \<Rightarrow> bool \<Rightarrow> segment list \<Rightarrow> segment list" where
  "set_visible sid visible segs =
     map (\<lambda>s. if seg_id s = sid then s\<lparr>seg_visible := visible\<rparr> else s) segs"

definition SetSegmentVisibility :: "node_ref \<Rightarrow> string \<Rightarrow> bool \<Rightarrow> unit io" where
  "SetSegmentVisibility d sid visible w =
     segmentation_only d (display_class (nodes w ! d)) ''SetSegmentVisibility''
       (SetSegmentVisibility_call d sid visible)
       (update_node d (\<lambda>n. n\<lparr>node_segments := set_visible sid visible (node_segments n)\<rparr>)) w"

definition threeDWidget :: "layout_manager \<Rightarrow> nat \<Rightarrow> unit option io" where
  "threeDWidget lm k =
     remote (threeDWidget_call k) (query (\<lambda>w. if threeD_widget lm \<and> k = 0 then Some () else None))"

definition threeDView :: "unit io" where
  "threeDView = remote threeDView_call (query (\<lambda>w. ()))"

definition resetFocalPoint :: "unit io" where
  "resetFocalPoint = remote resetFocalPoint_call (query (\<lambda>w. ()))"

definition sliceWidget :: "layout_manager \<Rightarrow> string \<Rightarrow> string option io" where
  "sliceWidget lm name =
     remote (sliceWidget_call name)
       (query (\<lambda>w. if name \<in> set (slice_widgets lm) then Some name else None))"

definition sliceController :: "string \<Rightarrow> string io" where
  "sliceController name = remote (sliceController_call name) (query (\<lambda>w. name))"

definition fitSliceToBackground :: "string \<Rightarrow> unit io" where
  "fitSliceToBackground name = remote (fitSliceToBackground_call name) (query (\<lambda>w. ()))"

section \<open>The facade\<close>

text \<open>A new line, between the lines \<^verbatim>\<open>"\n".join(info)\<close> joins.\<close>

definition newline :: string where
  "newline = [CHR 0x0A]"

subsection \<open>get_node_by_class\<close>

definition get_node_by_class :: "string \<Rightarrow> string io" where
  "get_node_by_class class_name =
     bind time_time (\<lambda>tic.
     bind (slicer_util_getNodesByClass class_name) (\<lambda>nodes.
     let info = (if nodes \<noteq> []
                 then [class_name @ '' nodes:''] @ map (\<lambda>node. ''- '' @ node) nodes
                 else [''No '' @ class_name @ '' nodes found in scene''])
     in bind time_time (\<lambda>toc.
        bind (logging_info (executed_in ''get_node_by_class'' tic toc)) (\<lambda>_.
        return (join newline info)))))"

subsection \<open>get_visible_segments\<close>

text \<open>One round of the loop over the visible segment identifiers: the entry it appends.\<close>

definition segment_entry :: "node_ref \<Rightarrow> node_ref \<Rightarrow> string \<Rightarrow> string io" where
  "segment_entry segmentationNode segmentationDisplayNode segmentId =
     bind (GetSegmentation segmentationNode) (\<lambda>segmentation.
     bind (GetSegment segmentation segmentId) (\<lambda>segment.
     let color = (Finite 0, Finite 0, Finite 0)
     in bind (GetSegmentColor segmentationDisplayNode segmentId color) (\<lambda>color.
        bind (method_of segment ''GetName'' (GetName segmentation)) (\<lambda>name.
        return (name @ '' (Color: RGB('' @ format_f 2 (fst color) @ '', '' @
                format_f 2 (fst (snd color)) @ '', '' @ format_f 2 (snd (snd color)) @ '')'')))))"

fun segment_entries :: "node_ref \<Rightarrow> node_ref \<Rightarrow> string list \<Rightarrow> string list \<Rightarrow> string list io" where
  "segment_entries segmentationNode segmentationDisplayNode [] info = return info"
| "segment_entries segmentationNode segmentationDisplayNode (segmentId # ids) info =
     bind (segment_entry segmentationNode segmentationDisplayNode segmentId) (\<lambda>entry.
     segment_entries segmentationNode segmentationDisplayNode ids (info @ [entry]))"

text \<open>
  \<^verbatim>\<open>segmentationDisplayNode\<close> is \<^verbatim>\<open>None\<close> for a node with no display node; the first
  method called on it then raises.
\<close>

definition get_visible_segments :: "string \<Rightarrow> string io" where
  "get_visible_segments segmentation_node =
     bind time_time (\<lambda>tic.
     bind (slicer_util_getNode segmentation_node) (\<lambda>segmentationNode.
     bind (GetDisplayNode segmentationNode) (\<lambda>displayNode.
     method_of displayNode ''GetVisibleSegmentIDs'' (\<lambda>segmentationDisplayNode.
     bind (GetVisibleSegmentIDs segmentationDisplayNode) (\<lambda>visible_segment_ids.
     bind (segment_entries segmentationNode segmentationDisplayNode visible_segment_ids [])
       (\<lambda>info.
     let info = ''The segmentation node '' @ segmentation_node @
                '' contains the following visible segments: '' @ join '','' info
     in bind time_time (\<lambda>toc.
        bind (logging_info (executed_in ''get_visible_segments'' tic toc)) (\<lambda>_.
        return info))))))))"

subsection \<open>_get_segmentation_and_display_node\<close>

text \<open>
  The helper \<^verbatim>\<open>_get_segmentation_and_display_node\<close> (a name of Isabelle starts with a
  letter). The number of items is asked for again when the message is built.
\<close>

definition get_segmentation_and_display_node :: "string \<Rightarrow> (node_ref \<times> node_ref) io" where
  "get_segmentation_and_display_node segmentation_node_name =
     bind (slicer_mrmlScene_GetNodesByName segmentation_node_name) (\<lambda>nodes.
     bind (GetNumberOfItems nodes) (\<lambda>n.
     if n \<noteq> 1
     then bind (GetNumberOfItems nodes) (\<lambda>found.
          raise (ValueError (''Expected exactly one node named '' @ quoted segmentation_node_name @
                             '', found '' @ str_nat found)))
     else
       bind (GetItemAsObject nodes 0) (\<lambda>item.
       method_of item ''IsA'' (\<lambda>segmentationNode.
       bind (IsA segmentationNode ''vtkMRMLSegmentationNode'') (\<lambda>isa.
       if \<not> isa
       then bind (GetClassName segmentationNode) (\<lambda>cls.
            raise (TypeError (''Node '' @ quoted segmentation_node_name @
                              '' is not a segmentation node. Found: '' @ cls)))
       else
         bind (GetDisplayNode segmentationNode) (\<lambda>displayNode.
         case displayNode of
           None \<Rightarrow> raise (ValueError (''Segmentation node '' @ quoted segmentation_node_name @
                                     '' has no display node''))
         | Some d \<Rightarrow> return (segmentationNode, d)))))))"

subsection \<open>set_all_segments_visibility\<close>

definition visible_or_hidden :: "bool \<Rightarrow> string" where
  "visible_or_hidden visible = (if visible then ''visible'' else ''hidden'')"

definition set_all_segments_visibility :: "string \<Rightarrow> bool \<Rightarrow> string io" where
  "set_all_segments_visibility segmentation_node_name visible =
     bind time_time (\<lambda>tic.
     bind (get_segmentation_and_display_node segmentation_node_name)
       (\<lambda>(segmentationNode, displayNode).
     bind (StartModify displayNode) (\<lambda>wasModified.
     bind (SetAllSegmentsVisibility displayNode visible) (\<lambda>_.
     bind (EndModify displayNode wasModified) (\<lambda>_.
     bind time_time (\<lambda>toc.
     bind (logging_info (executed_in ''set_all_segments_visibility'' tic toc)) (\<lambda>_.
     return (''All segments in '' @ segmentation_node_name @ '' are now '' @
             visible_or_hidden visible))))))))"

subsection \<open>center_view\<close>

fun fit_slices :: "layout_manager \<Rightarrow> string list \<Rightarrow> unit io" where
  "fit_slices layoutManager [] = return ()"
| "fit_slices layoutManager (name # names) =
     bind (sliceWidget layoutManager name) (\<lambda>sliceWidget.
     bind (case sliceWidget of
             None \<Rightarrow> return ()
           | Some sw \<Rightarrow> bind (sliceController sw) fitSliceToBackground) (\<lambda>_.
     fit_slices layoutManager names))"

text \<open>
  The body of the \<^verbatim>\<open>try\<close>. Without a layout manager the remote call gives \<^verbatim>\<open>None\<close>, and
  the first method called on it raises.
\<close>

definition center_view_try :: "rat \<Rightarrow> string io" where
  "center_view_try tic =
     bind slicer_app_layoutManager (\<lambda>manager.
     method_of manager ''threeDWidget'' (\<lambda>layoutManager.
     bind (threeDWidget layoutManager 0) (\<lambda>threeDWidget.
     bind (case threeDWidget of
             None \<Rightarrow> return ()
           | Some _ \<Rightarrow> bind threeDView (\<lambda>_. resetFocalPoint)) (\<lambda>_.
     bind (fit_slices layoutManager [''Red'', ''Yellow'', ''Green'']) (\<lambda>_.
     bind time_time (\<lambda>toc.
     bind (logging_info (executed_in ''center_view'' tic toc)) (\<lambda>_.
     return ''Successfully centered all views'')))))))"

definition center_view :: "string io" where
  "center_view =
     bind time_time (\<lambda>tic.
     try_except (center_view_try tic)
       (\<lambda>e. return (''Error centering views: '' @ exn_str e)))"

subsection \<open>set_segments_visibility\<close>

fun set_each_segment :: "node_ref \<Rightarrow> node_ref \<Rightarrow> string list \<Rightarrow> bool \<Rightarrow> unit io" where
  "set_each_segment segmentation displayNode [] visible = return ()"
| "set_each_segment segmentation displayNode (segment_name # names) visible =
     bind (GetSegmentIdBySegmentName segmentation segment_name) (\<lambda>segment_id.
     bind (SetSegmentVisibility displayNode segment_id visible) (\<lambda>_.
     set_each_segment segmentation displayNode names visible))"

definition set_segments_visibility :: "string \<Rightarrow> string list \<Rightarrow> bool \<Rightarrow> string io" where
  "set_segments_visibility segmentation_node_name segment_names visible =
     bind time_time (\<lambda>tic.
     bind (get_segmentation_and_display_node segmentation_node_name)
       (\<lambda>(segmentationNode, displayNode).
     bind (GetSegmentation segmentationNode) (\<lambda>segmentation.
     bind (StartModify displayNode) (\<lambda>wasModified.
     bind (set_each_segment segmentation displayNode segment_names visible) (\<lambda>_.
     bind (EndModify displayNode wasModified) (\<lambda>_.
     bind center_view (\<lambda>_.
     bind time_time (\<lambda>toc.
     bind (logging_info (executed_in ''set_segments_visibility'' tic toc)) (\<lambda>_.
     return (''Segments '' @ join '', '' segment_names @ '' in '' @ segmentation_node_name @
             '' are now '' @ visible_or_hidden visible))))))))))"

section \<open>Notions the properties are stated with\<close>

text \<open>\<^verbatim>\<open>s.split(c)\<close> of Python: the lines of a text, for \<open>c\<close> the new line.\<close>

fun split_on :: "char \<Rightarrow> string \<Rightarrow> string list" where
  "split_on c [] = [[]]"
| "split_on c (x # xs) =
     (if x = c then [] # split_on c xs
      else (case split_on c xs of [] \<Rightarrow> [[x]] | l # ls \<Rightarrow> (x # l) # ls))"

text \<open>No remote call raises.\<close>

definition no_faults :: "world \<Rightarrow> bool" where
  "no_faults w = (fault w = (\<lambda>h c. None))"

subsection \<open>An example scene\<close>

text \<open>
  A scene with a CT volume and a segmentation of two segments, the first visible and the
  second hidden; a layout with a 3D view and the red and green slice views; no call
  raises.
\<close>

definition liver :: segment where
  "liver = \<lparr>seg_id = ''Segment_1'', seg_name = ''Liver'',
            seg_color = (Finite (1 / 2), Finite (1 / 8), Finite 1), seg_visible = True\<rparr>"

definition spleen :: segment where
  "spleen = \<lparr>seg_id = ''Segment_2'', seg_name = ''Spleen'',
             seg_color = (Finite (3 / 8), Finite 0, Finite (2 / 3)), seg_visible = False\<rparr>"

definition ct_volume :: node where
  "ct_volume = \<lparr>node_id = ''vtkMRMLScalarVolumeNode1'', node_name = ''CT'',
     node_class = ''vtkMRMLScalarVolumeNode'',
     node_bases = [''vtkMRMLVolumeNode'', ''vtkMRMLDisplayableNode'', ''vtkMRMLNode''],
     node_display = Some ''vtkMRMLScalarVolumeDisplayNode'',
     batch_open = False, node_segments = []\<rparr>"

definition organs :: node where
  "organs = \<lparr>node_id = ''vtkMRMLSegmentationNode1'', node_name = ''Organs'',
     node_class = ''vtkMRMLSegmentationNode'',
     node_bases = [''vtkMRMLDisplayableNode'', ''vtkMRMLNode''],
     node_display = Some ''vtkMRMLSegmentationDisplayNode'',
     batch_open = False, node_segments = [liver, spleen]\<rparr>"

definition example_world :: world where
  "example_world = \<lparr>nodes = [ct_volume, organs],
     layout = Some \<lparr>threeD_widget = True, slice_widgets = [''Red'', ''Green'']\<rparr>,
     fault = (\<lambda>h c. None), calls = [],
     clock = (\<lambda>k. rat_of_nat k / 8), clock_reads = 0, log_lines = []\<rparr>"

subsection \<open>The all-visible state of a node\<close>

definition show_all :: "node \<Rightarrow> node" where
  "show_all n = n\<lparr>node_segments := map (\<lambda>s. s\<lparr>seg_visible := True\<rparr>) (node_segments n)\<rparr>"

definition all_visible_baseline :: "node_ref \<Rightarrow> world \<Rightarrow> world" where
  "all_visible_baseline i w = w\<lparr>nodes := (nodes w)[i := show_all (nodes w ! i)]\<rparr>"

text \<open>The same scene with a second segmentation of the same name.\<close>

definition ambiguous_world :: world where
  "ambiguous_world = example_world\<lparr>nodes := [organs, ct_volume, organs]\<rparr>"

subsection \<open>The text of a number with a fixed count of decimals\<close>

text \<open>
  \<open>has_decimals p t\<close>: the text \<open>t\<close> is a whole number (digits, possibly after a minus
  sign), a point, and exactly \<open>p\<close> digits.
\<close>

definition is_number_text :: "string \<Rightarrow> bool" where
  "is_number_text t =
     (case t of
        [] \<Rightarrow> False
      | c # ds \<Rightarrow> if c = CHR ''-'' then ds \<noteq> [] \<and> list_all is_digit ds
                 else list_all is_digit (c # ds))"

definition has_decimals :: "nat \<Rightarrow> string \<Rightarrow> bool" where
  "has_decimals p t =
     (case split_on (CHR ''.'') t of
        [whole, decimals] \<Rightarrow> is_number_text whole \<and> length decimals = p \<and> list_all is_digit decimals
      | _ \<Rightarrow> False)"

subsection \<open>The entry of a segment\<close>

text \<open>
  The entry \<^verbatim>\<open>Name (Color: RGB(r.rr, g.gg, b.bb)\<close> of a segment, as the spec words it:
  the name, then the red, green and blue channels in this order, each printed with two
  decimals, and one closing parenthesis.
\<close>

definition entry_of_segment :: "segment \<Rightarrow> string" where
  "entry_of_segment s =
     (case seg_color s of
        (r, g, b) \<Rightarrow> seg_name s @ '' (Color: RGB('' @ format_f 2 r @ '', '' @ format_f 2 g @
                      '', '' @ format_f 2 b @ '')'')"

text \<open>The example scene with the one visible segment removed.\<close>

definition hidden_world :: world where
  "hidden_world = example_world\<lparr>nodes := [ct_volume, organs\<lparr>node_segments := [spleen]\<rparr>]\<rparr>"

text \<open>The example scene with every segment visible.\<close>

definition shown_world :: world where
  "shown_world = all_visible_baseline 1 example_world"

subsection \<open>The steps of center_view\<close>

text \<open>
  The remote calls \<^verbatim>\<open>center_view\<close> makes once it has a layout manager, in order: the
  request for the 3D widget and, if there is one, for its view and the reset of the focal
  point; then for each of Red, Yellow and Green the request for the slice widget and, if
  there is one, for its controller and the fit to the background.
  \<open>first_fault\<close> runs through such a list and gives the exception of the first call that
  raises; \<open>first_raised\<close> is the exception of the first step of \<^verbatim>\<open>center_view\<close> that
  raises, if any: the request for the layout manager, the method called on \<^verbatim>\<open>None\<close> when
  there is no layout manager, or one of the calls above.
\<close>

fun first_fault :: "(call list \<Rightarrow> call \<Rightarrow> exn option) \<Rightarrow> call list \<Rightarrow> call list \<Rightarrow> exn option" where
  "first_fault f h [] = None"
| "first_fault f h (c # cs) = (case f h c of Some e \<Rightarrow> Some e | None \<Rightarrow> first_fault f (h @ [c]) cs)"

definition slice_steps :: "layout_manager \<Rightarrow> string \<Rightarrow> call list" where
  "slice_steps lm name =
     sliceWidget_call name #
     (if name \<in> set (slice_widgets lm)
      then [sliceController_call name, fitSliceToBackground_call name] else [])"

definition three_d_steps :: "layout_manager \<Rightarrow> call list" where
  "three_d_steps lm =
     threeDWidget_call 0 #
     (if threeD_widget lm then [threeDView_call, resetFocalPoint_call] else [])"

definition view_steps :: "layout_manager \<Rightarrow> call list" where
  "view_steps lm =
     three_d_steps lm @ concat (map (slice_steps lm) [''Red'', ''Yellow'', ''Green''])"

definition first_raised :: "world \<Rightarrow> exn option" where
  "first_raised w =
     (case fault w (calls w) slicer_app_layoutManager_call of
        Some e \<Rightarrow> Some e
      | None \<Rightarrow>
          (case layout w of
             None \<Rightarrow> Some (AttributeError (quoted ''NoneType'' @ '' object has no attribute '' @
                                           quoted ''threeDWidget''))
           | Some lm \<Rightarrow> first_fault (fault w) (calls w @ [slicer_app_layoutManager_call])
                         (view_steps lm)))"

text \<open>The example scene without a layout manager, and with a slice view whose controller raises.\<close>

definition headless_world :: world where
  "headless_world = example_world\<lparr>layout := None\<rparr>"

definition failing_world :: world where
  "failing_world = example_world\<lparr>fault := (\<lambda>h c.
     if c = sliceController_call ''Green'' then Some (Exception ''RuntimeError'' ''view is gone'')
     else None)\<rparr>"

subsection \<open>What a run may touch\<close>

text \<open>
  \<open>run K w w'\<close>: from \<open>w\<close> to \<open>w'\<close> only remote calls of the kind \<open>K\<close> were made, and
  nothing changed but these calls and the scene: the plan of raising calls, the clock, the
  number of readings taken, the log and the layout are the same. \<open>steps K m\<close>: every
  outcome of \<open>m\<close> is such a run. \<open>keeps_nodes m\<close>: no outcome of \<open>m\<close> changes the scene.
\<close>

definition run :: "(call \<Rightarrow> bool) \<Rightarrow> world \<Rightarrow> world \<Rightarrow> bool" where
  "run K w w' \<longleftrightarrow>
     (\<exists>new. calls w' = calls w @ new \<and> list_all K new) \<and> fault w' = fault w \<and>
     clock w' = clock w \<and> clock_reads w' = clock_reads w \<and> log_lines w' = log_lines w \<and>
     layout w' = layout w"

definition steps :: "(call \<Rightarrow> bool) \<Rightarrow> 'a io \<Rightarrow> bool" where
  "steps K m \<longleftrightarrow> (\<forall>w r w'. m w = (r, w') \<longrightarrow> run K w w')"

definition scene_only :: "(world \<Rightarrow> 'a \<times> world) \<Rightarrow> bool" where
  "scene_only act \<longleftrightarrow> (\<forall>w x w'. act w = (x, w') \<longrightarrow> w' = w\<lparr>nodes := nodes w'\<rparr>)"

definition keeps_nodes :: "'a io \<Rightarrow> bool" where
  "keeps_nodes m \<longleftrightarrow> (\<forall>w r w'. m w = (r, w') \<longrightarrow> nodes w' = nodes w)"

subsection \<open>Kinds of remote calls\<close>

text \<open>
  The calls on the layout and its widgets; the calls of the helper that resolves the node;
  these and the two calls that open the batch region; the two calls made for each segment
  name (on a given node and with a given flag).
\<close>

fun is_view_call :: "call \<Rightarrow> bool" where
  "is_view_call (threeDWidget_call k) = True"
| "is_view_call threeDView_call = True"
| "is_view_call resetFocalPoint_call = True"
| "is_view_call (sliceWidget_call name) = True"
| "is_view_call (sliceController_call name) = True"
| "is_view_call (fitSliceToBackground_call name) = True"
| "is_view_call c = False"

fun is_helper_call :: "call \<Rightarrow> bool" where
  "is_helper_call (slicer_mrmlScene_GetNodesByName_call name) = True"
| "is_helper_call (GetNumberOfItems_call coll) = True"
| "is_helper_call (GetItemAsObject_call coll k) = True"
| "is_helper_call (IsA_call i c) = True"
| "is_helper_call (GetClassName_call i) = True"
| "is_helper_call (GetDisplayNode_call i) = True"
| "is_helper_call c = False"

fun is_setup_call :: "call \<Rightarrow> bool" where
  "is_setup_call (GetSegmentation_call i) = True"
| "is_setup_call (StartModify_call i) = True"
| "is_setup_call c = is_helper_call c"

fun is_segment_call :: "call \<Rightarrow> bool" where
  "is_segment_call (GetSegmentIdBySegmentName_call i name) = True"
| "is_segment_call (SetSegmentVisibility_call i sid visible) = True"
| "is_segment_call c = False"

fun segment_call_of :: "node_ref \<Rightarrow> bool \<Rightarrow> call \<Rightarrow> bool" where
  "segment_call_of i v (GetSegmentIdBySegmentName_call j name) = (j = i)"
| "segment_call_of i v (SetSegmentVisibility_call j sid visible) = (j = i \<and> visible = v)"
| "segment_call_of i v c = False"

text \<open>The remote part of the \<^verbatim>\<open>try\<close> block of \<^verbatim>\<open>center_view\<close>, before the time is read again.\<close>

definition center_view_calls :: "unit io" where
  "center_view_calls =
     bind slicer_app_layoutManager (\<lambda>manager.
     method_of manager ''threeDWidget'' (\<lambda>layoutManager.
     bind (threeDWidget layoutManager 0) (\<lambda>threeDWidget.
     bind (case threeDWidget of
             None \<Rightarrow> return ()
           | Some _ \<Rightarrow> bind threeDView (\<lambda>_. resetFocalPoint)) (\<lambda>_.
     fit_slices layoutManager [''Red'', ''Yellow'', ''Green'']))))"

subsection \<open>The effect of the loop over the segment names\<close>

text \<open>
  \<open>apply_names\<close> is what the loop of \<^verbatim>\<open>set_segments_visibility\<close> does to the segments of the
  node, name after name: the name is resolved (to the empty identifier when no segment has
  it) and the segment of that identifier, if any, gets the flag. \<open>segment_calls\<close> are the
  remote calls it makes for that. \<open>set_segments\<close> puts a list of segments into a node of the
  scene.
\<close>

fun apply_names :: "string list \<Rightarrow> bool \<Rightarrow> segment list \<Rightarrow> segment list" where
  "apply_names [] visible segs = segs"
| "apply_names (name # names) visible segs =
     apply_names names visible (set_visible (segment_id_by_name name segs) visible segs)"

definition set_segments :: "node_ref \<Rightarrow> segment list \<Rightarrow> node list \<Rightarrow> node list" where
  "set_segments i segs ns = ns[i := (ns ! i)\<lparr>node_segments := segs\<rparr>]"

definition segment_calls :: "node_ref \<Rightarrow> string list \<Rightarrow> bool \<Rightarrow> segment list \<Rightarrow> call list" where
  "segment_calls i names visible segs =
     concat (map (\<lambda>name. [GetSegmentIdBySegmentName_call i name,
                           SetSegmentVisibility_call i (segment_id_by_name name segs) visible]) names)"

text \<open>The example scene in which hiding the second segment raises.\<close>

definition interrupted_world :: world where
  "interrupted_world = example_world\<lparr>fault := (\<lambda>h c.
     if c = SetSegmentVisibility_call 1 ''Segment_2'' False
     then Some (Exception ''RuntimeError'' ''connection lost'') else None)\<rparr>"

subsection \<open>The tools of the facade\<close>

text \<open>
  The five methods the constructor registers as tools (\<^verbatim>\<open>self.tools\<close>), each with its
  arguments; \<open>invoke\<close> calls the method, and \<open>tool_name\<close> is its name, which is the name
  in its log line.
\<close>

datatype invocation =
    Get_node_by_class string
  | Get_visible_segments string
  | Set_all_segments_visibility string bool
  | Set_segments_visibility string "string list" bool
  | Center_view

fun invoke :: "invocation \<Rightarrow> string io" where
  "invoke (Get_node_by_class class_name) = get_node_by_class class_name"
| "invoke (Get_visible_segments segmentation_node) = get_visible_segments segmentation_node"
| "invoke (Set_all_segments_visibility segmentation_node_name visible) =
     set_all_segments_visibility segmentation_node_name visible"
| "invoke (Set_segments_visibility segmentation_node_name segment_names visible) =
     set_segments_visibility segmentation_node_name segment_names visible"
| "invoke Center_view = center_view"

fun tool_name :: "invocation \<Rightarrow> string" where
  "tool_name (Get_node_by_class class_name) = ''get_node_by_class''"
| "tool_name (Get_visible_segments segmentation_node) = ''get_visible_segments''"
| "tool_name (Set_all_segments_visibility segmentation_node_name visible) =
     ''set_all_segments_visibility''"
| "tool_name (Set_segments_visibility segmentation_node_name segment_names visible) =
     ''set_segments_visibility''"
| "tool_name Center_view = ''center_view''"

section \<open>Properties\<close>

subsection \<open>Evaluating a run of the example scenes\<close>

lemmas io_defs = bind_def return_def raise_def try_except_def remote_def query_def
  update_node_def method_of_def time_time_def logging_info_def segmentation_only_def Let_def

lemmas remote_defs = slicer_util_getNodesByClass_def slicer_util_getNode_def
  slicer_mrmlScene_GetNodesByName_def slicer_app_layoutManager_def GetNumberOfItems_def
  GetItemAsObject_def IsA_def GetClassName_def GetDisplayNode_def GetVisibleSegmentIDs_def
  GetSegmentation_def GetSegment_def GetName_def GetSegmentColor_def StartModify_def
  EndModify_def SetAllSegmentsVisibility_def GetSegmentIdBySegmentName_def
  SetSegmentVisibility_def threeDWidget_def threeDView_def resetFocalPoint_def sliceWidget_def
  sliceController_def fitSliceToBackground_def is_a_def find_node_def nodes_by_name_def
  find_segment_def segment_id_by_name_def set_visible_def display_class_def

lemmas facade_defs = get_node_by_class_def segment_entry_def get_visible_segments_def
  get_segmentation_and_display_node_def set_all_segments_visibility_def center_view_try_def
  center_view_def set_segments_visibility_def visible_or_hidden_def

lemmas scene_defs = example_world_def ct_volume_def organs_def liver_def spleen_def
  interrupted_world_def headless_world_def failing_world_def hidden_world_def
  ambiguous_world_def shown_world_def all_visible_baseline_def show_all_def

subsection \<open>Lines\<close>

lemma split_on_line: "c \<notin> set x \<Longrightarrow> split_on c x = [x]"
  by (induction x) auto

lemma split_on_append: "c \<notin> set x \<Longrightarrow> split_on c (x @ c # rest) = x # split_on c rest"
  by (induction x) auto


subsection \<open>get_node_by_class\<close>

lemma dash_prefix: "(@) ''- '' = (\<lambda>node. CHR ''-'' # CHR '' '' # node)"
  by (simp add: fun_eq_iff)

lemma get_node_by_class_result:
  assumes "fst (slicer_util_getNodesByClass class_name w) = Inr ns"
  shows "fst (get_node_by_class class_name w) =
         Inr (join newline
                (if ns \<noteq> [] then (class_name @ '' nodes:'') # map (\<lambda>node. ''- '' @ node) ns
                 else [''No '' @ class_name @ '' nodes found in scene'']))"
  using assms
  by (auto simp: get_node_by_class_def bind_def time_time_def slicer_util_getNodesByClass_def
      remote_def query_def logging_info_def return_def Let_def dash_prefix comp_def
      split: option.splits prod.splits sum.splits)

text \<open>
  C5: when the remote service answers the class query with the empty collection,
  \<^verbatim>\<open>get_node_by_class\<close> returns exactly the one line
  \<^verbatim>\<open>No <class_name> nodes found in scene\<close>: no header comes before it.
\<close>

theorem get_node_by_class_none_found:
  assumes "fst (slicer_util_getNodesByClass class_name w) = Inr []"
  shows "fst (get_node_by_class class_name w) =
         Inr (''No '' @ class_name @ '' nodes found in scene'')"
  using get_node_by_class_result [OF assms] by simp

theorem get_node_by_class_none_found_witness:
  "fst (slicer_util_getNodesByClass ''vtkMRMLModelNode'' example_world) = Inr [] \<and>
   fst (get_node_by_class ''vtkMRMLModelNode'' example_world) =
     Inr ''No vtkMRMLModelNode nodes found in scene''"
proof -
  have h: "fst (slicer_util_getNodesByClass ''vtkMRMLModelNode'' example_world) = Inr []"
    by code_simp
  show ?thesis
    using h get_node_by_class_none_found [OF h] by simp
qed



subsection \<open>Runs in which no remote call raises\<close>

lemma no_faults_simps [simp]:
  "no_faults (w\<lparr>calls := cs\<rparr>) = no_faults w"
  "no_faults (w\<lparr>nodes := ns\<rparr>) = no_faults w"
  "no_faults (w\<lparr>clock_reads := k\<rparr>) = no_faults w"
  "no_faults (w\<lparr>log_lines := ls\<rparr>) = no_faults w"
  by (simp_all add: no_faults_def)

lemma remote_no_faults:
  "no_faults w \<Longrightarrow>
     remote c act w = (case act (w\<lparr>calls := calls w @ [c]\<rparr>) of (x, w2) \<Rightarrow> (Inr x, w2))"
  by (simp add: remote_def no_faults_def)

lemma bind_remote_no_faults:
  "no_faults w \<Longrightarrow>
     bind (remote c act) f w = (case act (w\<lparr>calls := calls w @ [c]\<rparr>) of (x, w2) \<Rightarrow> f x w2)"
  by (simp add: bind_def remote_no_faults split: prod.splits)

lemma nodes_by_name_bound: "i \<in> set (nodes_by_name name ns) \<Longrightarrow> i < length ns"
  by (simp add: nodes_by_name_def)

lemma nodes_by_name_update:
  assumes "node_name n = node_name (ns ! i)"
  shows "nodes_by_name name (ns[i := n]) = nodes_by_name name ns"
proof -
  have "node_name (ns[i := n] ! j) = node_name (ns ! j)" if "j < length ns" for j
    using that assms by (cases "i = j") simp_all
  then show ?thesis
    unfolding nodes_by_name_def by (auto intro: filter_cong)
qed

lemma is_a_batch_open [simp]: "is_a (n\<lparr>batch_open := b\<rparr>) c = is_a n c"
  by (simp add: is_a_def)

lemma is_a_node_segments [simp]: "is_a (n\<lparr>node_segments := segs\<rparr>) c = is_a n c"
  by (simp add: is_a_def)

lemma StartModify_no_faults:
  "no_faults w \<Longrightarrow> StartModify d w =
     (Inr (batch_open (nodes w ! d)),
      w\<lparr>calls := calls w @ [StartModify_call d],
        nodes := (nodes w)[d := (nodes w ! d)\<lparr>batch_open := True\<rparr>]\<rparr>)"
  by (simp add: StartModify_def remote_no_faults)

lemma EndModify_no_faults:
  "no_faults w \<Longrightarrow> EndModify d b w =
     (Inr (),
      w\<lparr>calls := calls w @ [EndModify_call d b],
        nodes := (nodes w)[d := (nodes w ! d)\<lparr>batch_open := b\<rparr>]\<rparr>)"
  by (simp add: EndModify_def remote_no_faults update_node_def)

lemma SetAllSegmentsVisibility_no_faults:
  "no_faults w \<Longrightarrow> is_a (nodes w ! d) ''vtkMRMLSegmentationNode'' \<Longrightarrow>
   SetAllSegmentsVisibility d visible w =
     (Inr (),
      w\<lparr>calls := calls w @ [SetAllSegmentsVisibility_call d visible],
        nodes := (nodes w)[d := (nodes w ! d)\<lparr>node_segments :=
           map (\<lambda>s. s\<lparr>seg_visible := visible\<rparr>) (node_segments (nodes w ! d))\<rparr>]\<rparr>)"
  by (simp add: SetAllSegmentsVisibility_def segmentation_only_def remote_no_faults update_node_def)

subsection \<open>_get_segmentation_and_display_node\<close>

lemma helper_resolves:
  assumes "no_faults w" and "nodes_by_name name (nodes w) = [i]"
    and "is_a (nodes w ! i) ''vtkMRMLSegmentationNode''" and "node_display (nodes w ! i) = Some dc"
  shows "get_segmentation_and_display_node name w =
    (Inr (i, i),
     w\<lparr>calls := calls w @
        [slicer_mrmlScene_GetNodesByName_call name, GetNumberOfItems_call [i],
         GetItemAsObject_call [i] 0, IsA_call i ''vtkMRMLSegmentationNode'',
         GetDisplayNode_call i]\<rparr>)"
  using assms
  by (simp add: get_segmentation_and_display_node_def slicer_mrmlScene_GetNodesByName_def
      GetNumberOfItems_def GetItemAsObject_def IsA_def GetDisplayNode_def method_of_def
      bind_remote_no_faults query_def raise_def return_def)

text \<open>
  C4: when the lookup by name matches zero nodes, or two or more, the helper raises the
  ValueError whose text holds the name asked for and the number of matches found. The
  only remote calls it has made are the lookup and the two requests for the number of
  items: neither the class of a node nor its display node is asked for.
\<close>

theorem helper_cardinality_error:
  assumes "no_faults w" and "length (nodes_by_name name (nodes w)) \<noteq> 1"
  shows "get_segmentation_and_display_node name w =
    (Inl (ValueError (''Expected exactly one node named '' @ quoted name @ '', found '' @
                      str_nat (length (nodes_by_name name (nodes w))))),
     w\<lparr>calls := calls w @
        [slicer_mrmlScene_GetNodesByName_call name,
         GetNumberOfItems_call (nodes_by_name name (nodes w)),
         GetNumberOfItems_call (nodes_by_name name (nodes w))]\<rparr>)"
  using assms
  by (simp add: get_segmentation_and_display_node_def slicer_mrmlScene_GetNodesByName_def
      GetNumberOfItems_def bind_remote_no_faults query_def raise_def)

theorem helper_cardinality_error_witness:
  "no_faults example_world \<and>
   length (nodes_by_name ''Lungs'' (nodes example_world)) = 0 \<and>
   fst (get_segmentation_and_display_node ''Lungs'' example_world) =
     Inl (ValueError (''Expected exactly one node named '' @ quoted ''Lungs'' @ '', found 0'')) \<and>
   no_faults ambiguous_world \<and>
   length (nodes_by_name ''Organs'' (nodes ambiguous_world)) = 2 \<and>
   fst (get_segmentation_and_display_node ''Organs'' ambiguous_world) =
     Inl (ValueError (''Expected exactly one node named '' @ quoted ''Organs'' @ '', found 2''))"
proof -
  have f: "no_faults example_world" "no_faults ambiguous_world"
    by (simp_all add: no_faults_def example_world_def ambiguous_world_def)
  have n0: "length (nodes_by_name ''Lungs'' (nodes example_world)) = 0"
    by code_simp
  have n2: "length (nodes_by_name ''Organs'' (nodes ambiguous_world)) = 2"
    by code_simp
  have s0: "str_nat 0 = ''0''" and s2: "str_nat 2 = ''2''"
    by code_simp+
  from n0 have "length (nodes_by_name ''Lungs'' (nodes example_world)) \<noteq> 1"
    by simp
  from helper_cardinality_error [OF f(1) this]
  have r0: "fst (get_segmentation_and_display_node ''Lungs'' example_world) =
     Inl (ValueError (''Expected exactly one node named '' @ quoted ''Lungs'' @ '', found 0''))"
    by (simp add: n0 s0)
  from n2 have "length (nodes_by_name ''Organs'' (nodes ambiguous_world)) \<noteq> 1"
    by simp
  from helper_cardinality_error [OF f(2) this]
  have r2: "fst (get_segmentation_and_display_node ''Organs'' ambiguous_world) =
     Inl (ValueError (''Expected exactly one node named '' @ quoted ''Organs'' @ '', found 2''))"
    by (simp add: n2 s2)
  show ?thesis
    using f n0 n2 r0 r2 by simp
qed

subsection \<open>set_all_segments_visibility\<close>

lemma set_all_segments_visibility_run:
  assumes "no_faults w" and "nodes_by_name name (nodes w) = [i]"
    and "is_a (nodes w ! i) ''vtkMRMLSegmentationNode''" and "node_display (nodes w ! i) = Some dc"
  shows "set_all_segments_visibility name visible w =
     (Inr (''All segments in '' @ name @ '' are now '' @ visible_or_hidden visible),
      w\<lparr>clock_reads := Suc (Suc (clock_reads w)),
        calls := calls w @
          [slicer_mrmlScene_GetNodesByName_call name, GetNumberOfItems_call [i],
           GetItemAsObject_call [i] 0, IsA_call i ''vtkMRMLSegmentationNode'',
           GetDisplayNode_call i, StartModify_call i, SetAllSegmentsVisibility_call i visible,
           EndModify_call i (batch_open (nodes w ! i))],
        nodes := (nodes w)[i := (nodes w ! i)\<lparr>node_segments :=
           map (\<lambda>s. s\<lparr>seg_visible := visible\<rparr>) (node_segments (nodes w ! i))\<rparr>],
        log_lines := log_lines w @
          [executed_in ''set_all_segments_visibility'' (clock w (clock_reads w))
             (clock w (Suc (clock_reads w)))]\<rparr>)"
proof -
  have i: "i < length (nodes w)"
    using nodes_by_name_bound [of i name "nodes w"] assms(2) by simp
  show ?thesis
    using assms i
    by (simp add: set_all_segments_visibility_def bind_def time_time_def logging_info_def
        helper_resolves StartModify_no_faults EndModify_no_faults
        SetAllSegmentsVisibility_no_faults return_def)
qed

lemma show_all_hidden:
  "show_all (n\<lparr>node_segments := map (\<lambda>s. s\<lparr>seg_visible := b\<rparr>) (node_segments n)\<rparr>) = show_all n"
  by (simp add: show_all_def comp_def)

text \<open>
  C9: for a segmentation node that its name resolves to (it is the one node of that
  name and has a display node), in a run in which no remote call raises and whatever the
  visibility of its segments at the start: after \<^verbatim>\<open>set_all_segments_visibility\<close> with
  \<^verbatim>\<open>visible=False\<close> and then with \<^verbatim>\<open>visible=True\<close> every segment of the node is visible,
  and the scene is the all-visible baseline, which is also what the single call with
  \<^verbatim>\<open>visible=True\<close> gives from that baseline. The second call returns
  \<^verbatim>\<open>All segments in <name> are now visible\<close>.
\<close>

theorem hide_all_then_show_all:
  assumes "no_faults w" and "nodes_by_name name (nodes w) = [i]"
    and "is_a (nodes w ! i) ''vtkMRMLSegmentationNode''" and "node_display (nodes w ! i) = Some dc"
  shows "let hidden = snd (set_all_segments_visibility name False w);
             shown = snd (set_all_segments_visibility name True hidden);
             baseline = all_visible_baseline i w
         in list_all seg_visible (node_segments (nodes shown ! i)) \<and>
            nodes shown = nodes baseline \<and>
            nodes shown = nodes (snd (set_all_segments_visibility name True baseline)) \<and>
            fst (set_all_segments_visibility name False w) =
              Inr (''All segments in '' @ name @ '' are now hidden'') \<and>
            fst (set_all_segments_visibility name True hidden) =
              Inr (''All segments in '' @ name @ '' are now visible'')"
proof -
  define hidden where "hidden = snd (set_all_segments_visibility name False w)"
  define shown where "shown = snd (set_all_segments_visibility name True hidden)"
  define baseline where "baseline = all_visible_baseline i w"
  let ?hide = "\<lambda>n. n\<lparr>node_segments := map (\<lambda>s. s\<lparr>seg_visible := False\<rparr>) (node_segments n)\<rparr>"
  have i: "i < length (nodes w)"
    using nodes_by_name_bound [of i name "nodes w"] assms(2) by simp
  note run1 = set_all_segments_visibility_run [OF assms, of False]
  have nodes_hidden: "nodes hidden = (nodes w)[i := ?hide (nodes w ! i)]"
    unfolding hidden_def run1 by simp
  have hidden_ok: "no_faults hidden" "nodes_by_name name (nodes hidden) = [i]"
    "is_a (nodes hidden ! i) ''vtkMRMLSegmentationNode''" "node_display (nodes hidden ! i) = Some dc"
    using assms i unfolding hidden_def run1 by (simp_all add: nodes_by_name_update)
  note run2 = set_all_segments_visibility_run [OF hidden_ok, of True]
  have nodes_shown: "nodes shown = (nodes w)[i := show_all (nodes w ! i)]"
    unfolding shown_def run2 using i
    by (simp add: nodes_hidden show_all_def comp_def)
  have baseline_ok: "no_faults baseline" "nodes_by_name name (nodes baseline) = [i]"
    "is_a (nodes baseline ! i) ''vtkMRMLSegmentationNode''"
    "node_display (nodes baseline ! i) = Some dc"
    using assms i unfolding baseline_def all_visible_baseline_def
    by (simp_all add: nodes_by_name_update show_all_def is_a_def)
  note run3 = set_all_segments_visibility_run [OF baseline_ok, of True]
  have nodes_again: "nodes (snd (set_all_segments_visibility name True baseline)) =
      (nodes w)[i := show_all (nodes w ! i)]"
    unfolding run3 using i
    by (simp add: baseline_def all_visible_baseline_def show_all_def comp_def)
  have "list_all seg_visible (node_segments (nodes shown ! i))"
    using i by (simp add: nodes_shown show_all_def list_all_iff)
  moreover have "nodes shown = nodes baseline"
    by (simp add: nodes_shown baseline_def all_visible_baseline_def)
  moreover have "nodes shown = nodes (snd (set_all_segments_visibility name True baseline))"
    by (simp add: nodes_shown nodes_again)
  moreover have "fst (set_all_segments_visibility name False w) =
      Inr (''All segments in '' @ name @ '' are now hidden'')"
    unfolding run1 by (simp add: visible_or_hidden_def)
  moreover have "fst (set_all_segments_visibility name True hidden) =
      Inr (''All segments in '' @ name @ '' are now visible'')"
    unfolding run2 by (simp add: visible_or_hidden_def)
  ultimately show ?thesis
    unfolding Let_def hidden_def [symmetric] shown_def [symmetric] baseline_def [symmetric]
    by blast
qed

theorem hide_all_then_show_all_witness:
  "no_faults example_world \<and> nodes_by_name ''Organs'' (nodes example_world) = [1] \<and>
   is_a (nodes example_world ! 1) ''vtkMRMLSegmentationNode'' \<and>
   node_display (nodes example_world ! 1) = Some ''vtkMRMLSegmentationDisplayNode'' \<and>
   map seg_visible (node_segments (nodes example_world ! 1)) = [True, False] \<and>
   (let hidden = snd (set_all_segments_visibility ''Organs'' False example_world);
        shown = snd (set_all_segments_visibility ''Organs'' True hidden)
    in list_all seg_visible (node_segments (nodes shown ! 1)) \<and>
       nodes shown = nodes (all_visible_baseline 1 example_world) \<and>
       fst (set_all_segments_visibility ''Organs'' True hidden) =
         Inr (''All segments in '' @ ''Organs'' @ '' are now visible''))"
proof -
  have h: "no_faults example_world" "nodes_by_name ''Organs'' (nodes example_world) = [1]"
    "is_a (nodes example_world ! 1) ''vtkMRMLSegmentationNode''"
    "node_display (nodes example_world ! 1) = Some ''vtkMRMLSegmentationDisplayNode''"
    by (simp add: no_faults_def example_world_def) code_simp+
  have v: "map seg_visible (node_segments (nodes example_world ! 1)) = [True, False]"
    by code_simp
  show ?thesis
    using h v hide_all_then_show_all [OF h] unfolding Let_def by blast
qed

subsection \<open>Printed numbers\<close>

lemma digit_char_is_digit: "d < 10 \<Longrightarrow> is_digit (digit_char d)"
  unfolding is_digit_def digit_char_def by (rule nth_mem) simp

lemma str_nat_digits: "list_all is_digit (str_nat n)"
proof (induction n rule: str_nat.induct)
  case (1 n)
  show ?case
  proof (cases "n < 10")
    case True
    then show ?thesis by (subst str_nat.simps) (simp add: digit_char_is_digit)
  next
    case False
    with 1 show ?thesis by (subst str_nat.simps) (simp add: digit_char_is_digit)
  qed
qed

lemma str_nat_not_empty: "str_nat n \<noteq> []"
  by (subst str_nat.simps) simp

lemma length_str_nat: "n < 10 ^ p \<Longrightarrow> 0 < p \<Longrightarrow> length (str_nat n) \<le> p"
proof (induction n arbitrary: p rule: str_nat.induct)
  case (1 n)
  show ?case
  proof (cases "n < 10")
    case True
    with 1(3) show ?thesis by (subst str_nat.simps) simp
  next
    case False
    obtain k where p: "p = Suc k" using 1(3) by (cases p) auto
    have "0 < k"
    proof (rule ccontr)
      assume "\<not> 0 < k"
      with p 1(2) False show False by simp
    qed
    moreover have "n div 10 < 10 ^ k"
      using 1(2) p by (simp add: less_mult_imp_div_less mult.commute)
    ultimately have "length (str_nat (n div 10)) \<le> k"
      using 1(1) False by simp
    with False p show ?thesis by (subst str_nat.simps) simp
  qed
qed

lemma not_digits: "\<not> is_digit (CHR ''.'')" "\<not> is_digit (CHR ''-'')"
  by (simp_all add: is_digit_def)

lemma zero_is_digit: "is_digit (CHR ''0'')"
  by (simp add: is_digit_def)

lemma dot_not_digit: "list_all is_digit ds \<Longrightarrow> CHR ''.'' \<notin> set ds"
  using not_digits(1) by (auto simp: list_all_iff)

lemma zfill_digits: "list_all is_digit ds \<Longrightarrow> list_all is_digit (zfill p ds)"
  using zero_is_digit by (auto simp: zfill_def list_all_iff)

lemma length_zfill: "length ds \<le> p \<Longrightarrow> length (zfill p ds) = p"
  by (simp add: zfill_def)

lemma format_fixed_decimals:
  assumes "0 < p"
  shows "\<exists>whole decimals. format_fixed p q = whole @ CHR ''.'' # decimals \<and> whole \<noteq> [] \<and>
           list_all is_digit whole \<and> length decimals = p \<and> list_all is_digit decimals"
proof -
  define n where "n = nat (round_half_even (q * 10 ^ p))"
  have "n mod 10 ^ p < 10 ^ p" by simp
  then have "length (zfill p (str_nat (n mod 10 ^ p))) = p"
    using assms by (intro length_zfill length_str_nat)
  moreover have "format_fixed p q = str_nat (n div 10 ^ p) @ CHR ''.'' # zfill p (str_nat (n mod 10 ^ p))"
    using assms by (simp add: format_fixed_def n_def Let_def)
  ultimately show ?thesis
    using str_nat_digits str_nat_not_empty zfill_digits by blast
qed

lemma split_on_two:
  "c \<notin> set x \<Longrightarrow> c \<notin> set y \<Longrightarrow> split_on c (x @ c # y) = [x, y]"
  by (simp add: split_on_append split_on_line)

lemma format_f_decimals:
  assumes "is_finite x" and "0 < p"
  shows "has_decimals p (format_f p x)"
proof -
  have sign: "has_decimals p (s @ whole @ CHR ''.'' # decimals)"
    if "s = [] \<or> s = ''-''" "whole \<noteq> []" "list_all is_digit whole" "length decimals = p"
      "list_all is_digit decimals" for s whole decimals
  proof -
    have "CHR ''.'' \<notin> set s"
      using that(1) by auto
    then have "CHR ''.'' \<notin> set (s @ whole)"
      using dot_not_digit [OF that(3)] by simp
    moreover have "CHR ''.'' \<notin> set decimals"
      using that(5) by (rule dot_not_digit)
    ultimately have "split_on (CHR ''.'') ((s @ whole) @ CHR ''.'' # decimals) = [s @ whole, decimals]"
      by (rule split_on_two)
    moreover have "is_number_text (s @ whole)"
    proof (cases whole)
      case Nil
      with that(2) show ?thesis by simp
    next
      case (Cons c ds)
      with that(3) have "is_digit c" "list_all is_digit ds"
        by simp_all
      then have "c \<noteq> CHR ''-''"
        using not_digits(2) by auto
      with that(1) Cons that(3) show ?thesis
        by (auto simp: is_number_text_def)
    qed
    ultimately show ?thesis
      using that(4,5) by (simp add: has_decimals_def)
  qed
  show ?thesis
  proof (cases x)
    case (Finite q)
    obtain whole decimals where "format_fixed p \<bar>q\<bar> = whole @ CHR ''.'' # decimals"
      "whole \<noteq> []" "list_all is_digit whole" "length decimals = p" "list_all is_digit decimals"
      using format_fixed_decimals [OF assms(2)] by blast
    with sign [of "if q < 0 then ''-'' else []" whole decimals] Finite show ?thesis
      by simp
  next
    case NegZero
    obtain whole decimals where "format_fixed p 0 = whole @ CHR ''.'' # decimals"
      "whole \<noteq> []" "list_all is_digit whole" "length decimals = p" "list_all is_digit decimals"
      using format_fixed_decimals [OF assms(2)] by blast
    with sign [of "''-''" whole decimals] NegZero show ?thesis
      by simp
  qed (use assms in simp_all)
qed

subsection \<open>What a step that returned has done\<close>

lemma bind_Inr:
  assumes "bind m f w = (Inr y, w')"
  obtains x w1 where "m w = (Inr x, w1)" and "f x w1 = (Inr y, w')"
  using assms by (auto simp: bind_def split: prod.splits sum.splits)

lemma remote_Inr:
  assumes "remote c act w = (Inr x, w')"
  shows "fault w (calls w) c = None" and "act (w\<lparr>calls := calls w @ [c]\<rparr>) = (x, w')"
  using assms by (auto simp: remote_def Let_def split: option.splits prod.splits)

lemma remote_query_Inr:
  assumes "remote c (query f) w = (Inr x, w')"
  shows "w' = w\<lparr>calls := calls w @ [c]\<rparr>" and "x = f w'"
  using remote_Inr(2) [OF assms] by (auto simp: query_def)

lemma segmentation_only_Inr:
  assumes "segmentation_only i cls name c act w = (Inr x, w')"
  shows "is_a (nodes w ! i) ''vtkMRMLSegmentationNode''" and "remote c act w = (Inr x, w')"
  using assms by (auto simp: segmentation_only_def raise_def split: if_splits)

lemma method_of_Inr:
  assumes "method_of obj name m w = (Inr x, w')"
  obtains r where "obj = Some r" and "m r w = (Inr x, w')"
  using assms by (auto simp: method_of_def raise_def split: option.splits)

lemma GetSegmentation_Inr:
  assumes "GetSegmentation i w = (Inr sn, w')"
  shows "sn = i" and "nodes w' = nodes w"
  using remote_query_Inr [OF segmentation_only_Inr(2) [OF assms [unfolded GetSegmentation_def]]]
  by simp_all

lemma GetSegment_Inr:
  assumes "GetSegment i sid w = (Inr seg, w')"
  shows "nodes w' = nodes w"
    and "seg = (case find_segment sid (node_segments (nodes w ! i)) of None \<Rightarrow> None | Some s \<Rightarrow> Some sid)"
  using remote_query_Inr [OF assms [unfolded GetSegment_def]] by simp_all

lemma GetSegmentColor_Inr:
  assumes "GetSegmentColor d sid buffer w = (Inr color, w')"
  shows "nodes w' = nodes w"
    and "color = (case find_segment sid (node_segments (nodes w ! d)) of
                    None \<Rightarrow> buffer | Some s \<Rightarrow> seg_color s)"
  using remote_query_Inr [OF segmentation_only_Inr(2) [OF assms [unfolded GetSegmentColor_def]]]
  by simp_all

lemma GetName_Inr:
  assumes "GetName i sid w = (Inr name, w')"
  shows "nodes w' = nodes w"
    and "name = (case find_segment sid (node_segments (nodes w ! i)) of None \<Rightarrow> [] | Some s \<Rightarrow> seg_name s)"
  using remote_query_Inr [OF assms [unfolded GetName_def]] by simp_all

lemma segment_entry_Inr:
  assumes "segment_entry i i sid w = (Inr entry, w')"
  shows "nodes w' = nodes w \<and>
         (\<exists>s. find_segment sid (node_segments (nodes w ! i)) = Some s \<and> entry = entry_of_segment s)"
  using assms unfolding segment_entry_def Let_def
proof (elim bind_Inr method_of_Inr)
  fix sn w1 seg w2 color w3 name w4 sg
  assume 1: "GetSegmentation i w = (Inr sn, w1)"
    and 2: "GetSegment sn sid w1 = (Inr seg, w2)"
    and 3: "GetSegmentColor i sid (Finite 0, Finite 0, Finite 0) w2 = (Inr color, w3)"
    and sg: "seg = Some sg"
    and 4: "GetName sn sg w3 = (Inr name, w4)"
    and 5: "return (name @ '' (Color: RGB('' @ format_f 2 (fst color) @ '', '' @
              format_f 2 (fst (snd color)) @ '', '' @ format_f 2 (snd (snd color)) @ '')'') w4 =
            (Inr entry, w')"
  note n = GetSegmentation_Inr [OF 1] GetSegment_Inr(1) [OF 2] GetSegmentColor_Inr(1) [OF 3]
    GetName_Inr(1) [OF 4]
  from GetSegment_Inr(2) [OF 2] sg obtain s
    where s: "find_segment sid (node_segments (nodes w ! i)) = Some s" and "sg = sid"
    by (auto simp: n split: option.splits)
  have name: "name = seg_name s"
    using GetName_Inr(2) [OF 4] s \<open>sg = sid\<close> by (simp add: n)
  have color: "color = seg_color s"
    using GetSegmentColor_Inr(2) [OF 3] s by (simp add: n)
  have "entry = entry_of_segment s"
    using 5 by (cases "seg_color s") (simp add: return_def entry_of_segment_def name color)
  moreover have "nodes w' = nodes w"
    using 5 n by (auto simp: return_def)
  ultimately show ?thesis
    using s by blast
qed


lemma segment_entries_Inr:
  assumes "segment_entries i i ids info w = (Inr out, w')"
  shows "nodes w' = nodes w \<and>
         out = info @ map (\<lambda>sid. entry_of_segment (the (find_segment sid (node_segments (nodes w ! i))))) ids"
  using assms
proof (induction ids arbitrary: info w)
  case Nil
  then show ?case by (simp add: return_def)
next
  case (Cons sid ids)
  from Cons.prems obtain entry w1 where 1: "segment_entry i i sid w = (Inr entry, w1)"
    and 2: "segment_entries i i ids (info @ [entry]) w1 = (Inr out, w')"
    by (auto elim: bind_Inr)
  from segment_entry_Inr [OF 1] Cons.IH [OF 2] show ?case
    by auto
qed

lemma find_segment_distinct:
  "distinct (map seg_id segs) \<Longrightarrow> s \<in> set segs \<Longrightarrow> find_segment (seg_id s) segs = Some s"
  by (induction segs) (auto simp: find_segment_def)

lemma slicer_util_getNode_Inr:
  assumes "slicer_util_getNode pat w = (Inr i, w')"
  shows "nodes w' = nodes w" and "find_node pat (nodes w) = Some i"
  using assms unfolding slicer_util_getNode_def
proof (atomize (full), elim bind_Inr)
  fix r w1
  assume 1: "remote (slicer_util_getNode_call pat) (query (\<lambda>w. find_node pat (nodes w))) w = (Inr r, w1)"
    and 2: "(case r of
               None \<Rightarrow> raise (Exception ''MRMLNodeNotFoundException''
                         (''could not find nodes in the scene by name or id '' @ quoted pat))
             | Some i \<Rightarrow> return i) w1 = (Inr i, w')"
  from remote_query_Inr [OF 1] have "nodes w1 = nodes w" "r = find_node pat (nodes w)"
    by simp_all
  with 2 show "nodes w' = nodes w \<and> find_node pat (nodes w) = Some i"
    by (cases "find_node pat (nodes w)") (auto simp: return_def raise_def)
qed

lemma GetDisplayNode_Inr:
  assumes "GetDisplayNode i w = (Inr d, w')"
  shows "nodes w' = nodes w"
    and "d = (case node_display (nodes w ! i) of None \<Rightarrow> None | Some c \<Rightarrow> Some i)"
  using remote_query_Inr [OF assms [unfolded GetDisplayNode_def]] by simp_all

lemma GetVisibleSegmentIDs_Inr:
  assumes "GetVisibleSegmentIDs d w = (Inr ids, w')"
  shows "nodes w' = nodes w"
    and "ids = map seg_id (filter seg_visible (node_segments (nodes w ! d)))"
  using remote_query_Inr [OF segmentation_only_Inr(2) [OF assms [unfolded GetVisibleSegmentIDs_def]]]
  by simp_all

lemma time_time_Inr:
  assumes "time_time w = (Inr t, w')"
  shows "t = clock w (clock_reads w)" and "w' = w\<lparr>clock_reads := Suc (clock_reads w)\<rparr>"
  using assms by (auto simp: time_time_def)

lemma logging_info_Inr:
  assumes "logging_info line w = (Inr u, w')"
  shows "w' = w\<lparr>log_lines := log_lines w @ [line]\<rparr>"
  using assms by (auto simp: logging_info_def)

lemma get_visible_segments_Inr:
  assumes "get_visible_segments name w = (Inr text, w')" and "find_node name (nodes w) = Some i"
  shows "text = ''The segmentation node '' @ name @
            '' contains the following visible segments: '' @
            join '','' (map (\<lambda>sid. entry_of_segment (the (find_segment sid (node_segments (nodes w ! i)))))
               (map seg_id (filter seg_visible (node_segments (nodes w ! i)))))"
  using assms(1) unfolding get_visible_segments_def Let_def
proof (elim bind_Inr method_of_Inr)
  fix tic w0 sn w1 disp w2 d ids w3 info w4 toc w5 u w6
  assume 0: "time_time w = (Inr tic, w0)"
    and 1: "slicer_util_getNode name w0 = (Inr sn, w1)"
    and 2: "GetDisplayNode sn w1 = (Inr disp, w2)"
    and d: "disp = Some d"
    and 3: "GetVisibleSegmentIDs d w2 = (Inr ids, w3)"
    and 4: "segment_entries sn d ids [] w3 = (Inr info, w4)"
    and 5: "time_time w4 = (Inr toc, w5)"
    and 6: "logging_info (executed_in ''get_visible_segments'' tic toc) w5 = (Inr u, w6)"
    and 7: "return (''The segmentation node '' @ name @
              '' contains the following visible segments: '' @ join '','' info) w6 = (Inr text, w')"
  have n0: "nodes w0 = nodes w"
    using time_time_Inr(2) [OF 0] by simp
  note n = n0 slicer_util_getNode_Inr(1) [OF 1] GetDisplayNode_Inr(1) [OF 2]
    GetVisibleSegmentIDs_Inr(1) [OF 3]
  have sn: "sn = i"
    using slicer_util_getNode_Inr(2) [OF 1] assms(2) by (simp add: n)
  have di: "d = i"
    using GetDisplayNode_Inr(2) [OF 2] d sn by (auto split: option.splits)
  have ids: "ids = map seg_id (filter seg_visible (node_segments (nodes w ! i)))"
    using GetVisibleSegmentIDs_Inr(2) [OF 3] by (simp add: n di)
  have "info = map (\<lambda>sid. entry_of_segment (the (find_segment sid (node_segments (nodes w ! i))))) ids"
    using segment_entries_Inr [OF 4 [unfolded sn di]] by (simp add: n)
  with 7 ids show ?thesis
    by (simp add: return_def)
qed

text \<open>
  C7: when \<^verbatim>\<open>get_visible_segments\<close> returns for a node (whose segments have distinct
  identifiers), the text is the wrapping sentence and then, joined by commas, one entry
  per visible segment in their order; each entry is the segment's name, then
  \<^verbatim>\<open> (Color: RGB(\<close>, the red, green and blue channels in this order, each printed by
  \<^verbatim>\<open>:.2f\<close> and separated by a comma and a space, then one closing parenthesis. A
  channel that is a finite number is printed with exactly two decimals.
\<close>

theorem visible_segment_entries:
  assumes "fst (get_visible_segments name w) = Inr text"
    and "find_node name (nodes w) = Some i"
    and "distinct (map seg_id (node_segments (nodes w ! i)))"
  shows "text = ''The segmentation node '' @ name @
            '' contains the following visible segments: '' @
            join '','' (map entry_of_segment (filter seg_visible (node_segments (nodes w ! i)))) \<and>
         (\<forall>s \<in> set (filter seg_visible (node_segments (nodes w ! i))). \<forall>r g b.
            seg_color s = (r, g, b) \<longrightarrow>
              entry_of_segment s =
                seg_name s @ '' (Color: RGB('' @ format_f 2 r @ '', '' @ format_f 2 g @
                '', '' @ format_f 2 b @ '')'' \<and>
              (is_finite r \<longrightarrow> has_decimals 2 (format_f 2 r)) \<and>
              (is_finite g \<longrightarrow> has_decimals 2 (format_f 2 g)) \<and>
              (is_finite b \<longrightarrow> has_decimals 2 (format_f 2 b)))"
proof -
  let ?segs = "node_segments (nodes w ! i)"
  obtain w' where "get_visible_segments name w = (Inr text, w')"
    using assms(1) by (cases "get_visible_segments name w") simp
  note sentence = get_visible_segments_Inr [OF this assms(2)]
  have eq: "map (\<lambda>sid. entry_of_segment (the (find_segment sid ?segs)))
          (map seg_id (filter seg_visible ?segs)) =
        map entry_of_segment (filter seg_visible ?segs)"
    unfolding map_map
    by (rule map_cong [OF refl]) (simp add: find_segment_distinct [OF assms(3)])
  have "text = ''The segmentation node '' @ name @
      '' contains the following visible segments: '' @
      join '','' (map entry_of_segment (filter seg_visible ?segs))"
    using sentence unfolding eq .
  moreover have "entry_of_segment s =
      seg_name s @ '' (Color: RGB('' @ format_f 2 r @ '', '' @ format_f 2 g @
      '', '' @ format_f 2 b @ '')''" if "seg_color s = (r, g, b)" for s r g b
    using that by (simp add: entry_of_segment_def)
  moreover have "has_decimals 2 (format_f 2 x)" if "is_finite x" for x
    using that by (rule format_f_decimals) simp
  ultimately show ?thesis
    by blast
qed

theorem visible_segment_entries_witness:
  "fst (get_visible_segments ''Organs'' shown_world) =
     Inr (''The segmentation node Organs contains the following visible segments: '' @
          ''Liver (Color: RGB(0.50, 0.12, 1.00),Spleen (Color: RGB(0.38, 0.00, 0.67)'') \<and>
   find_node ''Organs'' (nodes shown_world) = Some 1 \<and>
   distinct (map seg_id (node_segments (nodes shown_world ! 1))) \<and>
   map entry_of_segment (filter seg_visible (node_segments (nodes shown_world ! 1))) =
     [''Liver (Color: RGB(0.50, 0.12, 1.00)'', ''Spleen (Color: RGB(0.38, 0.00, 0.67)''] \<and>
   ''The segmentation node Organs contains the following visible segments: '' @
     ''Liver (Color: RGB(0.50, 0.12, 1.00),Spleen (Color: RGB(0.38, 0.00, 0.67)'' =
   ''The segmentation node '' @ ''Organs'' @ '' contains the following visible segments: '' @
     join '','' (map entry_of_segment (filter seg_visible (node_segments (nodes shown_world ! 1)))) \<and>
   has_decimals 2 (format_f 2 (Finite (1 / 8))) \<and> format_f 2 (Finite (1 / 8)) = ''0.12''"
proof -
  have h1: "fst (get_visible_segments ''Organs'' shown_world) =
     Inr (''The segmentation node Organs contains the following visible segments: '' @
          ''Liver (Color: RGB(0.50, 0.12, 1.00),Spleen (Color: RGB(0.38, 0.00, 0.67)'')"
    by code_simp
  have h2: "find_node ''Organs'' (nodes shown_world) = Some 1"
    by code_simp
  have h3: "distinct (map seg_id (node_segments (nodes shown_world ! 1)))"
    by code_simp
  have e: "map entry_of_segment (filter seg_visible (node_segments (nodes shown_world ! 1))) =
     [''Liver (Color: RGB(0.50, 0.12, 1.00)'', ''Spleen (Color: RGB(0.38, 0.00, 0.67)'']"
    by code_simp
  have l: "liver \<in> set (filter seg_visible (node_segments (nodes shown_world ! 1)))"
    by code_simp
  have c: "seg_color liver = (Finite (1 / 2), Finite (1 / 8), Finite 1)"
    by (simp add: liver_def)
  have f: "is_finite (Finite (1 / 8))"
    by simp
  have v: "format_f 2 (Finite (1 / 8)) = ''0.12''"
    by code_simp
  from visible_segment_entries [OF h1 h2 h3] l c f
  have "has_decimals 2 (format_f 2 (Finite (1 / 8)))"
    by blast
  moreover from visible_segment_entries [OF h1 h2 h3]
  have "''The segmentation node Organs contains the following visible segments: '' @
     ''Liver (Color: RGB(0.50, 0.12, 1.00),Spleen (Color: RGB(0.38, 0.00, 0.67)'' =
   ''The segmentation node '' @ ''Organs'' @ '' contains the following visible segments: '' @
     join '','' (map entry_of_segment (filter seg_visible (node_segments (nodes shown_world ! 1))))"
    by blast
  ultimately show ?thesis
    using h1 h2 h3 e v by blast
qed

text \<open>
  C8: for a segmentation node with a display node and no visible segment, in a run in
  which no remote call raises, \<^verbatim>\<open>get_visible_segments\<close> returns the whole wrapping
  sentence, which names the node, with nothing after the colon and the space that
  follows it.
\<close>

theorem no_visible_segments_sentence:
  assumes "no_faults w" and "find_node name (nodes w) = Some i"
    and "is_a (nodes w ! i) ''vtkMRMLSegmentationNode''" and "node_display (nodes w ! i) = Some dc"
    and "filter seg_visible (node_segments (nodes w ! i)) = []"
  shows "fst (get_visible_segments name w) =
           Inr (''The segmentation node '' @ name @ '' contains the following visible segments: '')"
  using assms
  by (simp add: get_visible_segments_def bind_def time_time_def slicer_util_getNode_def
      remote_no_faults query_def return_def GetDisplayNode_def method_of_def
      GetVisibleSegmentIDs_def segmentation_only_def logging_info_def Let_def)

theorem no_visible_segments_sentence_witness:
  "no_faults hidden_world \<and> find_node ''Organs'' (nodes hidden_world) = Some 1 \<and>
   is_a (nodes hidden_world ! 1) ''vtkMRMLSegmentationNode'' \<and>
   node_display (nodes hidden_world ! 1) = Some ''vtkMRMLSegmentationDisplayNode'' \<and>
   filter seg_visible (node_segments (nodes hidden_world ! 1)) = [] \<and>
   fst (get_visible_segments ''Organs'' hidden_world) =
     Inr (''The segmentation node '' @ ''Organs'' @ '' contains the following visible segments: '')"
proof -
  have h: "no_faults hidden_world" "find_node ''Organs'' (nodes hidden_world) = Some 1"
    "is_a (nodes hidden_world ! 1) ''vtkMRMLSegmentationNode''"
    "node_display (nodes hidden_world ! 1) = Some ''vtkMRMLSegmentationDisplayNode''"
    "filter seg_visible (node_segments (nodes hidden_world ! 1)) = []"
    by (simp add: no_faults_def hidden_world_def example_world_def) code_simp+
  show ?thesis
    using h no_visible_segments_sentence [OF h] by blast
qed

subsection \<open>center_view\<close>









lemma first_raised_clock [simp]:
  "first_raised (w\<lparr>clock_reads := k\<rparr>) = first_raised w"
  by (simp add: first_raised_def split: option.splits)








subsection \<open>Frames of the remote calls\<close>

lemma run_refl: "run K w w"
  by (simp add: run_def)

lemma run_trans: "run K w w1 \<Longrightarrow> run K w1 w2 \<Longrightarrow> run K w w2"
  by (auto simp: run_def)

lemma run_mono: "run K w w' \<Longrightarrow> (\<And>c. K c \<Longrightarrow> K' c) \<Longrightarrow> run K' w w'"
  by (auto simp: run_def list_all_iff)

lemma stepsD: "steps K m \<Longrightarrow> m w = (r, w') \<Longrightarrow> run K w w'"
  by (simp add: steps_def)

lemma steps_mono: "steps K m \<Longrightarrow> (\<And>c. K c \<Longrightarrow> K' c) \<Longrightarrow> steps K' m"
  unfolding steps_def using run_mono by blast

lemma steps_return: "steps K (return x)"
  by (simp add: steps_def return_def run_refl)

lemma steps_raise: "steps K (raise e)"
  by (simp add: steps_def raise_def run_refl)

lemma scene_only_query: "scene_only (query f)"
  by (simp add: scene_only_def query_def)

lemma scene_only_update_node: "scene_only (update_node i f)"
  by (auto simp: scene_only_def update_node_def)

lemma remote_run:
  assumes "remote c act w = (r, w')" and "scene_only act"
  shows "\<exists>w1. calls w' = calls w @ [c] \<and> fault w' = fault w \<and>
     clock w' = clock w \<and> clock_reads w' = clock_reads w \<and> log_lines w' = log_lines w \<and>
     layout w' = layout w"
proof (cases "fault w (calls w) c")
  case None
  obtain x w2 where a: "act (w\<lparr>calls := calls w @ [c]\<rparr>) = (x, w2)"
    by (cases "act (w\<lparr>calls := calls w @ [c]\<rparr>)")
  with assms(2) have "w2 = (w\<lparr>calls := calls w @ [c]\<rparr>)\<lparr>nodes := nodes w2\<rparr>"
    unfolding scene_only_def by blast
  moreover from assms(1) None a have "w' = w2"
    by (simp add: remote_def Let_def)
  ultimately have "w' = w\<lparr>calls := calls w @ [c], nodes := nodes w'\<rparr>"
    by simp
  then show ?thesis
    by (metis (no_types, lifting) world.select_convs world.surjective world.update_convs)
next
  case (Some e)
  with assms(1) have "w' = w\<lparr>calls := calls w @ [c]\<rparr>"
    by (simp add: remote_def Let_def)
  then show ?thesis by simp
qed

lemma steps_remote: "K c \<Longrightarrow> scene_only act \<Longrightarrow> steps K (remote c act)"
  unfolding steps_def run_def using remote_run by fastforce

lemma steps_bind:
  assumes "steps K m" and "\<And>x. steps K (f x)"
  shows "steps K (bind m f)"
  unfolding steps_def
proof (intro allI impI)
  fix w r w'
  assume b: "bind m f w = (r, w')"
  obtain r1 w1 where m: "m w = (r1, w1)"
    by (cases "m w")
  show "run K w w'"
  proof (cases r1)
    case (Inl e)
    with b m have "w' = w1" by (simp add: bind_def)
    with stepsD [OF assms(1) m] show ?thesis by simp
  next
    case (Inr x)
    with b m have "f x w1 = (r, w')" by (simp add: bind_def)
    from run_trans [OF stepsD [OF assms(1) m] stepsD [OF assms(2) this]] show ?thesis .
  qed
qed

lemma steps_method_of: "(\<And>r. steps K (m r)) \<Longrightarrow> steps K (method_of obj name m)"
  by (cases obj) (simp_all add: method_of_def steps_raise)

lemma steps_segmentation_only:
  "K c \<Longrightarrow> scene_only act \<Longrightarrow> steps K (segmentation_only i cls name c act)"
  unfolding steps_def
proof (intro allI impI)
  fix w r w'
  assume k: "K c" and a: "scene_only act"
    and s: "segmentation_only i cls name c act w = (r, w')"
  show "run K w w'"
  proof (cases "is_a (nodes w ! i) ''vtkMRMLSegmentationNode''")
    case True
    with s have "remote c act w = (r, w')"
      by (simp add: segmentation_only_def)
    moreover have "steps K (remote c act)"
      using k a by (rule steps_remote)
    ultimately show ?thesis
      by (simp add: steps_def)
  next
    case False
    with s have "w' = w"
      by (simp add: segmentation_only_def raise_def)
    then show ?thesis
      by (simp add: run_refl)
  qed
qed

lemma bind_assoc: "bind (bind m f) g = bind m (\<lambda>x. bind (f x) g)"
  by (rule ext) (simp add: bind_def split: prod.splits sum.splits)

lemma method_of_bind:
  "bind (method_of obj name m) g = method_of obj name (\<lambda>r. bind (m r) g)"
  by (rule ext) (simp add: method_of_def bind_def raise_def split: option.splits)

lemma center_view_try_split:
  "center_view_try tic =
     bind center_view_calls (\<lambda>_.
     bind time_time (\<lambda>toc.
     bind (logging_info (executed_in ''center_view'' tic toc)) (\<lambda>_.
     return ''Successfully centered all views'')))"
  unfolding center_view_try_def center_view_calls_def bind_assoc method_of_bind ..

lemma steps_fit_slices: "steps is_view_call (fit_slices lm names)"
proof (induction names)
  case Nil
  show ?case by (simp add: steps_return)
next
  case (Cons name names)
  have "steps is_view_call (case sw of None \<Rightarrow> return ()
      | Some c \<Rightarrow> bind (sliceController c) fitSliceToBackground)" for sw
    by (cases sw)
      (auto simp: sliceController_def fitSliceToBackground_def
        intro!: steps_return steps_bind steps_remote scene_only_query)
  with Cons show ?case
    by (auto simp: sliceWidget_def intro!: steps_bind steps_remote scene_only_query)
qed

lemma steps_three_d:
  "steps is_view_call (case t of None \<Rightarrow> return () | Some x \<Rightarrow> bind threeDView (\<lambda>_. resetFocalPoint))"
  by (cases t)
    (auto simp: threeDView_def resetFocalPoint_def
      intro!: steps_return steps_bind steps_remote scene_only_query)

lemma bind_remote_run:
  assumes "bind (remote c act) f w = (r, w')" and "scene_only act" and "\<And>x. steps K (f x)"
  shows "\<exists>rest. calls w' = calls w @ c # rest \<and> list_all K rest \<and> fault w' = fault w \<and>
     clock w' = clock w \<and> clock_reads w' = clock_reads w \<and> log_lines w' = log_lines w \<and>
     layout w' = layout w"
proof -
  obtain r1 w1 where m: "remote c act w = (r1, w1)"
    by (cases "remote c act w")
  from remote_run [OF m assms(2)]
  have 1: "calls w1 = calls w @ [c]" "fault w1 = fault w" "clock w1 = clock w"
    "clock_reads w1 = clock_reads w" "log_lines w1 = log_lines w" "layout w1 = layout w"
    by simp_all
  show ?thesis
  proof (cases r1)
    case (Inl e)
    with assms(1) m have "w' = w1" by (simp add: bind_def)
    with 1 show ?thesis by simp
  next
    case (Inr x)
    with assms(1) m have "f x w1 = (r, w')" by (simp add: bind_def)
    from stepsD [OF assms(3) this] 1 show ?thesis
      by (auto simp: run_def)
  qed
qed

lemma center_view_calls_run:
  assumes "center_view_calls w = (r, w')"
  shows "\<exists>post. calls w' = calls w @ slicer_app_layoutManager_call # post \<and>
     list_all is_view_call post \<and> fault w' = fault w \<and>
     clock w' = clock w \<and> clock_reads w' = clock_reads w \<and> log_lines w' = log_lines w \<and>
     layout w' = layout w"
proof (rule bind_remote_run)
  show "bind (remote slicer_app_layoutManager_call (query layout)) (\<lambda>manager.
     method_of manager ''threeDWidget'' (\<lambda>layoutManager.
     bind (threeDWidget layoutManager 0) (\<lambda>threeDWidget.
     bind (case threeDWidget of
             None \<Rightarrow> return ()
           | Some _ \<Rightarrow> bind threeDView (\<lambda>_. resetFocalPoint)) (\<lambda>_.
     fit_slices layoutManager [''Red'', ''Yellow'', ''Green''])))) w = (r, w')"
    using assms by (simp only: center_view_calls_def slicer_app_layoutManager_def)
  show "scene_only (query layout)"
    by (rule scene_only_query)
  show "steps is_view_call (method_of manager ''threeDWidget'' (\<lambda>layoutManager.
     bind (threeDWidget layoutManager 0) (\<lambda>threeDWidget.
     bind (case threeDWidget of
             None \<Rightarrow> return ()
           | Some _ \<Rightarrow> bind threeDView (\<lambda>_. resetFocalPoint)) (\<lambda>_.
     fit_slices layoutManager [''Red'', ''Yellow'', ''Green'']))))" for manager
    by (intro steps_method_of steps_bind steps_three_d steps_fit_slices)
      (simp add: threeDWidget_def steps_remote scene_only_query)
qed

lemma center_view_run:
  assumes "center_view w = (r, w')"
  shows "\<exists>post. calls w' = calls w @ slicer_app_layoutManager_call # post \<and>
     list_all is_view_call post \<and> fault w' = fault w \<and> clock w' = clock w \<and>
     layout w' = layout w \<and>
     (r = Inr ''Successfully centered all views'' \<and>
        clock_reads w' = Suc (Suc (clock_reads w)) \<and>
        log_lines w' = log_lines w @
          [executed_in ''center_view'' (clock w (clock_reads w)) (clock w (Suc (clock_reads w)))]
      \<or>
      (\<exists>e. r = Inr (''Error centering views: '' @ exn_str e)) \<and>
        clock_reads w' = Suc (clock_reads w) \<and> log_lines w' = log_lines w)"
proof -
  let ?w0 = "w\<lparr>clock_reads := Suc (clock_reads w)\<rparr>"
  let ?tic = "clock w (clock_reads w)"
  obtain rc w1 where c: "center_view_calls ?w0 = (rc, w1)"
    by (cases "center_view_calls ?w0")
  from center_view_calls_run [OF c] obtain post
    where f: "calls w1 = calls w @ slicer_app_layoutManager_call # post"
      "list_all is_view_call post" "fault w1 = fault w" "clock w1 = clock w"
      "clock_reads w1 = Suc (clock_reads w)" "log_lines w1 = log_lines w" "layout w1 = layout w"
    by auto
  show ?thesis
  proof (cases rc)
    case (Inl e)
    with c assms have "r = Inr (''Error centering views: '' @ exn_str e)" "w' = w1"
      by (simp_all add: center_view_def bind_def [of time_time] time_time_def try_except_def
          center_view_try_split bind_def [of center_view_calls] return_def)
    with f show ?thesis by blast
  next
    case (Inr u)
    with c assms have "r = Inr ''Successfully centered all views''"
      "w' = w1\<lparr>clock_reads := Suc (clock_reads w1),
              log_lines := log_lines w1 @ [executed_in ''center_view'' ?tic (clock w1 (clock_reads w1))]\<rparr>"
      by (simp_all add: center_view_def bind_def [of time_time] time_time_def try_except_def
          center_view_try_split bind_def [of center_view_calls] bind_def [of "logging_info _"]
          logging_info_def return_def)
    with f show ?thesis by simp
  qed
qed

lemma remote_cases:
  assumes "remote c act w = (r, w')"
  obtains e where "fault w (calls w) c = Some e" and "r = Inl e" and "w' = w\<lparr>calls := calls w @ [c]\<rparr>"
  | x where "fault w (calls w) c = None" and "r = Inr x" and "act (w\<lparr>calls := calls w @ [c]\<rparr>) = (x, w')"
  using assms by (auto simp: remote_def Let_def split: option.splits prod.splits)

lemma find_set_visible:
  "List.find (\<lambda>s. seg_name s = name) (set_visible sid visible segs) =
     map_option (\<lambda>s. if seg_id s = sid then s\<lparr>seg_visible := visible\<rparr> else s)
       (List.find (\<lambda>s. seg_name s = name) segs)"
  by (induction segs) (auto simp: set_visible_def)

lemma segment_id_by_name_set_visible [simp]:
  "segment_id_by_name name (set_visible sid visible segs) = segment_id_by_name name segs"
  by (simp add: segment_id_by_name_def find_set_visible split: option.splits)

lemma segment_calls_Cons:
  "segment_calls i (name # names) visible segs =
     GetSegmentIdBySegmentName_call i name #
     SetSegmentVisibility_call i (segment_id_by_name name segs) visible #
     segment_calls i names visible segs"
  by (simp add: segment_calls_def)

lemma segment_calls_set_visible [simp]:
  "segment_calls i names v (set_visible sid visible segs) = segment_calls i names v segs"
  by (simp add: segment_calls_def)

lemma set_segments_twice:
  "set_segments i segs (set_segments i segs0 ns) = set_segments i segs ns"
  by (cases "i < length ns") (simp_all add: set_segments_def list_update_beyond)

lemma set_segments_same: "set_segments i (node_segments (ns ! i)) ns = ns"
  by (simp add: set_segments_def)

lemma nth_set_segments:
  "i < length ns \<Longrightarrow> set_segments i segs ns ! i = (ns ! i)\<lparr>node_segments := segs\<rparr>"
  by (simp add: set_segments_def)

lemma length_set_segments [simp]: "length (set_segments i segs ns) = length ns"
  by (simp add: set_segments_def)

text \<open>One round of the loop, whatever its outcome.\<close>

lemma set_one_segment:
  assumes "bind (GetSegmentIdBySegmentName i name) (\<lambda>segment_id.
             SetSegmentVisibility i segment_id visible) w = (r, w')"
    and "is_a (nodes w ! i) ''vtkMRMLSegmentationNode''" and "i < length (nodes w)"
  shows "fault w' = fault w \<and> clock w' = clock w \<and> clock_reads w' = clock_reads w \<and>
         log_lines w' = log_lines w \<and> layout w' = layout w \<and>
         (case r of
            Inr u \<Rightarrow>
              calls w' = calls w @ segment_calls i [name] visible (node_segments (nodes w ! i)) \<and>
              nodes w' = set_segments i (apply_names [name] visible (node_segments (nodes w ! i))) (nodes w)
          | Inl e \<Rightarrow>
              nodes w' = nodes w \<and>
              (\<exists>new. calls w' = calls w @ new \<and> new \<noteq> [] \<and> list_all (segment_call_of i visible) new \<and>
                 fault w (calls w @ butlast new) (last new) = Some e))"
proof -
  let ?c1 = "GetSegmentIdBySegmentName_call i name"
  let ?w1 = "w\<lparr>calls := calls w @ [?c1]\<rparr>"
  let ?sid = "segment_id_by_name name (node_segments (nodes w ! i))"
  let ?c2 = "SetSegmentVisibility_call i ?sid visible"
  show ?thesis
  proof (cases "fault w (calls w) ?c1")
    case (Some e)
    with assms(1) have "r = Inl e" "w' = ?w1"
      by (simp_all add: bind_def GetSegmentIdBySegmentName_def remote_def Let_def)
    with Some show ?thesis
      by (auto intro!: exI [of _ "[?c1]"])
  next
    case None
    then have 1: "GetSegmentIdBySegmentName i name w = (Inr ?sid, ?w1)"
      by (simp add: GetSegmentIdBySegmentName_def remote_def Let_def query_def)
    with assms(1) have 2: "SetSegmentVisibility i ?sid visible ?w1 = (r, w')"
      by (simp add: bind_def)
    show ?thesis
    proof (cases "fault w (calls w @ [?c1]) ?c2")
      case (Some e)
      with 2 assms(2) have "r = Inl e" "w' = w\<lparr>calls := calls w @ [?c1, ?c2]\<rparr>"
        by (simp_all add: SetSegmentVisibility_def segmentation_only_def remote_def Let_def)
      with Some show ?thesis
        by (auto intro!: exI [of _ "[?c1, ?c2]"])
    next
      case no: None
      with 2 assms(2) have "r = Inr ()"
        "w' = w\<lparr>calls := calls w @ [?c1, ?c2],
               nodes := (nodes w)[i := (nodes w ! i)\<lparr>node_segments :=
                  set_visible ?sid visible (node_segments (nodes w ! i))\<rparr>]\<rparr>"
        by (simp_all add: SetSegmentVisibility_def segmentation_only_def remote_def Let_def
            update_node_def)
      then show ?thesis
        by (simp add: segment_calls_def set_segments_def)
    qed
  qed
qed

lemma set_each_segment_Cons:
  "set_each_segment i d (name # names) visible w =
     (case bind (GetSegmentIdBySegmentName i name) (\<lambda>segment_id.
             SetSegmentVisibility d segment_id visible) w of
        (Inl e, w1) \<Rightarrow> (Inl e, w1)
      | (Inr u, w1) \<Rightarrow> set_each_segment i d names visible w1)"
  by (simp add: bind_def split: prod.splits sum.splits)

lemma set_each_segment_run:
  assumes "set_each_segment i i names visible w = (r, w')"
    and "is_a (nodes w ! i) ''vtkMRMLSegmentationNode''" and "i < length (nodes w)"
  shows "fault w' = fault w \<and> clock w' = clock w \<and> clock_reads w' = clock_reads w \<and>
         log_lines w' = log_lines w \<and> layout w' = layout w \<and>
         (case r of
            Inr u \<Rightarrow>
              calls w' = calls w @ segment_calls i names visible (node_segments (nodes w ! i)) \<and>
              nodes w' = set_segments i (apply_names names visible (node_segments (nodes w ! i))) (nodes w)
          | Inl e \<Rightarrow>
              (\<exists>k<length names. nodes w' =
                 set_segments i (apply_names (take k names) visible (node_segments (nodes w ! i))) (nodes w)) \<and>
              (\<exists>new. calls w' = calls w @ new \<and> new \<noteq> [] \<and> list_all (segment_call_of i visible) new \<and>
                 fault w (calls w @ butlast new) (last new) = Some e))"
  using assms
proof (induction names arbitrary: w)
  case Nil
  then show ?case
    by (auto simp: return_def segment_calls_def set_segments_same)
next
  case (Cons name names)
  let ?segs = "node_segments (nodes w ! i)"
  let ?one = "bind (GetSegmentIdBySegmentName i name) (\<lambda>segment_id.
             SetSegmentVisibility i segment_id visible)"
  obtain r1 w1 where one: "?one w = (r1, w1)"
    by (cases "?one w")
  note first = set_one_segment [OF one Cons.prems(2,3)]
  show ?case
  proof (cases r1)
    case (Inl e)
    with Cons.prems(1) [unfolded set_each_segment_Cons] one have "r = Inl e" "w' = w1"
      by simp_all
    moreover have "nodes w = set_segments i (apply_names (take 0 (name # names)) visible ?segs) (nodes w)"
      by (simp add: set_segments_same)
    ultimately show ?thesis
      using first Inl by (auto simp del: take_Cons')
  next
    case (Inr u)
    with Cons.prems(1) [unfolded set_each_segment_Cons] one
    have rest: "set_each_segment i i names visible w1 = (r, w')"
      by simp
    let ?segs1 = "set_visible (segment_id_by_name name ?segs) visible ?segs"
    from first Inr have f: "fault w1 = fault w" "clock w1 = clock w" "clock_reads w1 = clock_reads w"
      "log_lines w1 = log_lines w" "layout w1 = layout w"
      and c1: "calls w1 = calls w @ segment_calls i [name] visible ?segs"
      and n1: "nodes w1 = set_segments i ?segs1 (nodes w)"
      by simp_all
    have a1: "is_a (nodes w1 ! i) ''vtkMRMLSegmentationNode''" and l1: "i < length (nodes w1)"
      and s1: "node_segments (nodes w1 ! i) = ?segs1"
      using Cons.prems(2,3) by (simp_all add: n1 nth_set_segments)
    note ih = Cons.IH [OF rest a1 l1, unfolded s1]
    show ?thesis
    proof (cases r)
      case ok: (Inr u')
      with ih f c1 n1 show ?thesis
        by (simp add: segment_calls_Cons segment_calls_def set_segments_twice)
    next
      case bad: (Inl e)
      with ih obtain k new where k: "k < length names"
        and nk: "nodes w' = set_segments i (apply_names (take k names) visible ?segs1) (nodes w1)"
        and new: "calls w' = calls w1 @ new" "new \<noteq> []" "list_all (segment_call_of i visible) new"
          "fault w1 (calls w1 @ butlast new) (last new) = Some e"
        by auto
      let ?all = "segment_calls i [name] visible ?segs @ new"
      have "nodes w' = set_segments i (apply_names (take (Suc k) (name # names)) visible ?segs) (nodes w)"
        by (simp add: nk n1 set_segments_twice)
      moreover have "Suc k < length (name # names)"
        using k by simp
      moreover have "calls w' = calls w @ ?all" "?all \<noteq> []" "list_all (segment_call_of i visible) ?all"
        "fault w (calls w @ butlast ?all) (last ?all) = Some e"
        using new f c1 by (simp_all add: segment_calls_def butlast_append)
      ultimately show ?thesis
        using ih f bad by (auto simp del: take_Cons' apply_names.simps)
    qed
  qed
qed

lemma steps_if: "steps K a \<Longrightarrow> steps K b \<Longrightarrow> steps K (if c then a else b)"
  by simp

lemma steps_case_option:
  "steps K a \<Longrightarrow> (\<And>x. steps K (f x)) \<Longrightarrow> steps K (case opt of None \<Rightarrow> a | Some x \<Rightarrow> f x)"
  by (cases opt) simp_all

lemma helper_run:
  assumes "get_segmentation_and_display_node name w = (r, w')"
  shows "\<exists>rest. calls w' = calls w @ slicer_mrmlScene_GetNodesByName_call name # rest \<and>
     list_all is_helper_call rest \<and> fault w' = fault w \<and>
     clock w' = clock w \<and> clock_reads w' = clock_reads w \<and> log_lines w' = log_lines w \<and>
     layout w' = layout w"
proof (rule bind_remote_run)
  show "bind (remote (slicer_mrmlScene_GetNodesByName_call name)
               (query (\<lambda>w. nodes_by_name name (nodes w)))) (\<lambda>nodes.
     bind (GetNumberOfItems nodes) (\<lambda>n.
     if n \<noteq> 1
     then bind (GetNumberOfItems nodes) (\<lambda>found.
          raise (ValueError (''Expected exactly one node named '' @ quoted name @
                             '', found '' @ str_nat found)))
     else
       bind (GetItemAsObject nodes 0) (\<lambda>item.
       method_of item ''IsA'' (\<lambda>segmentationNode.
       bind (IsA segmentationNode ''vtkMRMLSegmentationNode'') (\<lambda>isa.
       if \<not> isa
       then bind (GetClassName segmentationNode) (\<lambda>cls.
            raise (TypeError (''Node '' @ quoted name @
                              '' is not a segmentation node. Found: '' @ cls)))
       else
         bind (GetDisplayNode segmentationNode) (\<lambda>displayNode.
         case displayNode of
           None \<Rightarrow> raise (ValueError (''Segmentation node '' @ quoted name @
                                     '' has no display node''))
         | Some d \<Rightarrow> return (segmentationNode, d))))))) w = (r, w')"
    using assms
    by (simp only: get_segmentation_and_display_node_def slicer_mrmlScene_GetNodesByName_def)
  show "scene_only (query (\<lambda>w. nodes_by_name name (nodes w)))"
    by (rule scene_only_query)
  show "steps is_helper_call (bind (GetNumberOfItems nodes) (\<lambda>n.
     if n \<noteq> 1
     then bind (GetNumberOfItems nodes) (\<lambda>found.
          raise (ValueError (''Expected exactly one node named '' @ quoted name @
                             '', found '' @ str_nat found)))
     else
       bind (GetItemAsObject nodes 0) (\<lambda>item.
       method_of item ''IsA'' (\<lambda>segmentationNode.
       bind (IsA segmentationNode ''vtkMRMLSegmentationNode'') (\<lambda>isa.
       if \<not> isa
       then bind (GetClassName segmentationNode) (\<lambda>cls.
            raise (TypeError (''Node '' @ quoted name @
                              '' is not a segmentation node. Found: '' @ cls)))
       else
         bind (GetDisplayNode segmentationNode) (\<lambda>displayNode.
         case displayNode of
           None \<Rightarrow> raise (ValueError (''Segmentation node '' @ quoted name @
                                     '' has no display node''))
         | Some d \<Rightarrow> return (segmentationNode, d)))))))" for nodes
    unfolding GetNumberOfItems_def GetItemAsObject_def IsA_def GetClassName_def GetDisplayNode_def
    by (intro steps_bind steps_remote scene_only_query steps_method_of steps_if steps_case_option
        steps_raise steps_return) simp_all
qed

lemma helper_Inr:
  assumes "get_segmentation_and_display_node name w = (Inr (sn, d), w')"
  shows "d = sn \<and> nodes w' = nodes w \<and> nodes_by_name name (nodes w) = [sn] \<and>
         is_a (nodes w ! sn) ''vtkMRMLSegmentationNode'' \<and> node_display (nodes w ! sn) \<noteq> None"
  using assms unfolding get_segmentation_and_display_node_def
proof (elim bind_Inr)
  fix coll w1 n w2
  assume 1: "slicer_mrmlScene_GetNodesByName name w = (Inr coll, w1)"
    and 2: "GetNumberOfItems coll w1 = (Inr n, w2)"
    and rest: "(if n \<noteq> 1
     then bind (GetNumberOfItems coll) (\<lambda>found.
          raise (ValueError (''Expected exactly one node named '' @ quoted name @
                             '', found '' @ str_nat found)))
     else
       bind (GetItemAsObject coll 0) (\<lambda>item.
       method_of item ''IsA'' (\<lambda>segmentationNode.
       bind (IsA segmentationNode ''vtkMRMLSegmentationNode'') (\<lambda>isa.
       if \<not> isa
       then bind (GetClassName segmentationNode) (\<lambda>cls.
            raise (TypeError (''Node '' @ quoted name @
                              '' is not a segmentation node. Found: '' @ cls)))
       else
         bind (GetDisplayNode segmentationNode) (\<lambda>displayNode.
         case displayNode of
           None \<Rightarrow> raise (ValueError (''Segmentation node '' @ quoted name @
                                     '' has no display node''))
         | Some d \<Rightarrow> return (segmentationNode, d)))))) w2 = (Inr (sn, d), w')"
  have coll: "coll = nodes_by_name name (nodes w)" and n1: "nodes w1 = nodes w"
    using remote_query_Inr [OF 1 [unfolded slicer_mrmlScene_GetNodesByName_def]] by simp_all
  have n: "n = length coll" and n2: "nodes w2 = nodes w1"
    using remote_query_Inr [OF 2 [unfolded GetNumberOfItems_def]] by simp_all
  have one: "n = 1"
  proof (rule ccontr)
    assume "n \<noteq> 1"
    with rest show False
      by (auto elim!: bind_Inr simp: raise_def)
  qed
  with rest have "bind (GetItemAsObject coll 0) (\<lambda>item.
       method_of item ''IsA'' (\<lambda>segmentationNode.
       bind (IsA segmentationNode ''vtkMRMLSegmentationNode'') (\<lambda>isa.
       if \<not> isa
       then bind (GetClassName segmentationNode) (\<lambda>cls.
            raise (TypeError (''Node '' @ quoted name @
                              '' is not a segmentation node. Found: '' @ cls)))
       else
         bind (GetDisplayNode segmentationNode) (\<lambda>displayNode.
         case displayNode of
           None \<Rightarrow> raise (ValueError (''Segmentation node '' @ quoted name @
                                     '' has no display node''))
         | Some d \<Rightarrow> return (segmentationNode, d))))) w2 = (Inr (sn, d), w')"
    by simp
  then show ?thesis
  proof (elim bind_Inr method_of_Inr)
    fix item w3 i isa w4
    assume 3: "GetItemAsObject coll 0 w2 = (Inr item, w3)"
      and i: "item = Some i"
      and 4: "IsA i ''vtkMRMLSegmentationNode'' w3 = (Inr isa, w4)"
      and rest2: "(if \<not> isa
       then bind (GetClassName i) (\<lambda>cls.
            raise (TypeError (''Node '' @ quoted name @
                              '' is not a segmentation node. Found: '' @ cls)))
       else
         bind (GetDisplayNode i) (\<lambda>displayNode.
         case displayNode of
           None \<Rightarrow> raise (ValueError (''Segmentation node '' @ quoted name @
                                     '' has no display node''))
         | Some d \<Rightarrow> return (i, d))) w4 = (Inr (sn, d), w')"
    have item: "item = (if 0 < length coll then Some (coll ! 0) else None)" and n3: "nodes w3 = nodes w2"
      using remote_query_Inr [OF 3 [unfolded GetItemAsObject_def]] by simp_all
    from n one have "length coll = 1" by simp
    then obtain j where cj: "coll = [j]"
      by (cases coll) auto
    with item i have ij: "coll = [i]" by simp
    have isa: "isa = is_a (nodes w4 ! i) ''vtkMRMLSegmentationNode''" and n4: "nodes w4 = nodes w3"
      using remote_query_Inr [OF 4 [unfolded IsA_def]] by simp_all
    have yes: "isa"
    proof (rule ccontr)
      assume "\<not> isa"
      with rest2 show False
        by (auto elim!: bind_Inr simp: raise_def)
    qed
    with rest2 have "bind (GetDisplayNode i) (\<lambda>displayNode.
         case displayNode of
           None \<Rightarrow> raise (ValueError (''Segmentation node '' @ quoted name @
                                     '' has no display node''))
         | Some d \<Rightarrow> return (i, d)) w4 = (Inr (sn, d), w')"
      by (simp only: yes not_True_eq_False if_False)
    then obtain disp w5 where 5: "GetDisplayNode i w4 = (Inr disp, w5)"
      and fin: "(case disp of
           None \<Rightarrow> raise (ValueError (''Segmentation node '' @ quoted name @
                                     '' has no display node''))
         | Some d \<Rightarrow> return (i, d)) w5 = (Inr (sn, d), w')"
      by (rule bind_Inr)
    note g = GetDisplayNode_Inr [OF 5]
    from fin obtain d' where d': "disp = Some d'" "sn = i" "d = d'" "w' = w5"
      by (cases disp) (auto simp: raise_def return_def)
    with g(2) have "d = i" "node_display (nodes w4 ! i) \<noteq> None"
      by (auto split: option.splits)
    with d' g(1) yes isa ij coll show ?thesis
      by (simp add: n1 n2 n3 n4)
  qed
qed

lemma keeps_nodes_return: "keeps_nodes (return x)"
  by (simp add: keeps_nodes_def return_def)

lemma keeps_nodes_raise: "keeps_nodes (raise e)"
  by (simp add: keeps_nodes_def raise_def)

lemma keeps_nodes_query: "keeps_nodes (remote c (query f))"
  by (auto simp: keeps_nodes_def remote_def query_def Let_def split: option.splits)

lemma keeps_nodes_time: "keeps_nodes time_time"
  by (auto simp: keeps_nodes_def time_time_def)

lemma keeps_nodes_logging: "keeps_nodes (logging_info line)"
  by (auto simp: keeps_nodes_def logging_info_def)

lemma keeps_nodes_bind:
  "keeps_nodes m \<Longrightarrow> (\<And>x. keeps_nodes (f x)) \<Longrightarrow> keeps_nodes (bind m f)"
  unfolding keeps_nodes_def bind_def
  by (auto split: prod.splits sum.splits)

lemma keeps_nodes_try:
  "keeps_nodes m \<Longrightarrow> (\<And>e. keeps_nodes (h e)) \<Longrightarrow> keeps_nodes (try_except m h)"
  unfolding keeps_nodes_def try_except_def
  by (auto split: prod.splits sum.splits)

lemma keeps_nodes_method_of: "(\<And>r. keeps_nodes (m r)) \<Longrightarrow> keeps_nodes (method_of obj name m)"
  by (cases obj) (simp_all add: method_of_def keeps_nodes_raise)

lemma keeps_nodes_case_option:
  "keeps_nodes a \<Longrightarrow> (\<And>x. keeps_nodes (f x)) \<Longrightarrow>
     keeps_nodes (case opt of None \<Rightarrow> a | Some x \<Rightarrow> f x)"
  by (cases opt) simp_all

lemma keeps_nodes_fit_slices: "keeps_nodes (fit_slices lm names)"
  by (induction names)
    (auto simp: sliceWidget_def sliceController_def fitSliceToBackground_def
      intro!: keeps_nodes_bind keeps_nodes_query keeps_nodes_return keeps_nodes_case_option)

lemma keeps_nodes_center_view: "keeps_nodes center_view"
  unfolding center_view_def center_view_try_def slicer_app_layoutManager_def threeDWidget_def
    threeDView_def resetFocalPoint_def
  by (intro keeps_nodes_bind keeps_nodes_try keeps_nodes_time keeps_nodes_logging
      keeps_nodes_method_of keeps_nodes_case_option keeps_nodes_query keeps_nodes_return
      keeps_nodes_fit_slices)

lemma center_view_summary:
  assumes "center_view w = (r, w')"
  shows "\<exists>post msg inner. calls w' = calls w @ slicer_app_layoutManager_call # post \<and>
     list_all is_view_call post \<and> clock w' = clock w \<and> r = Inr msg \<and>
     log_lines w' = log_lines w @ inner \<and>
     (inner = [] \<or> (\<exists>t1 t2. inner = [executed_in ''center_view'' t1 t2]))"
proof -
  from center_view_run [OF assms] obtain post
    where p: "calls w' = calls w @ slicer_app_layoutManager_call # post"
      "list_all is_view_call post" "clock w' = clock w"
    and d: "r = Inr ''Successfully centered all views'' \<and>
        log_lines w' = log_lines w @
          [executed_in ''center_view'' (clock w (clock_reads w)) (clock w (Suc (clock_reads w)))]
      \<or> (\<exists>e. r = Inr (''Error centering views: '' @ exn_str e)) \<and> log_lines w' = log_lines w"
    by blast
  from d show ?thesis
  proof
    assume "r = Inr ''Successfully centered all views'' \<and>
        log_lines w' = log_lines w @
          [executed_in ''center_view'' (clock w (clock_reads w)) (clock w (Suc (clock_reads w)))]"
    with p show ?thesis by blast
  next
    assume "(\<exists>e. r = Inr (''Error centering views: '' @ exn_str e)) \<and> log_lines w' = log_lines w"
    then obtain e where "r = Inr (''Error centering views: '' @ exn_str e)"
      "log_lines w' = log_lines w @ []"
      by auto
    with p show ?thesis by blast
  qed
qed

lemma is_helper_setup: "is_helper_call c \<Longrightarrow> is_setup_call c"
  by (cases c) simp_all

lemma setup_not_segment: "is_setup_call c \<Longrightarrow> \<not> is_segment_call c"
  by (cases c) simp_all

lemma last_append_list_all:
  "list_all P xs \<Longrightarrow> xs \<noteq> [] \<Longrightarrow> P (last (ys @ xs))"
  by (simp add: list_all_iff)

lemma set_segments_visibility_cases:
  assumes "set_segments_visibility name names visible w = (r, w')"
  obtains
    (other) e c where "r = Inl e" and "calls w' \<noteq> []" and "last (calls w') = c"
      and "\<not> is_segment_call c"
  | (in_loop) e i k pre new where "r = Inl e" and "nodes_by_name name (nodes w) = [i]"
      and "calls w' = calls w @ pre @ new" and "list_all is_setup_call pre"
      and "new \<noteq> []" and "list_all (segment_call_of i visible) new"
      and "fault w (butlast (calls w')) (last (calls w')) = Some e"
      and "log_lines w' = log_lines w" and "k < length names"
      and "nodes w' = set_segments i
             (apply_names (take k names) visible (node_segments (nodes w ! i)))
             ((nodes w)[i := (nodes w ! i)\<lparr>batch_open := True\<rparr>])"
  | (returned) i pre post inner where
      "r = Inr (''Segments '' @ join '', '' names @ '' in '' @ name @ '' are now '' @
                visible_or_hidden visible)"
      and "nodes_by_name name (nodes w) = [i]"
      and "calls w' = calls w @ pre @ segment_calls i names visible (node_segments (nodes w ! i)) @
             [EndModify_call i (batch_open (nodes w ! i)), slicer_app_layoutManager_call] @ post"
      and "list_all is_setup_call pre" and "list_all is_view_call post"
      and "log_lines w' = log_lines w @ inner @
             [executed_in ''set_segments_visibility'' (clock w (clock_reads w))
                (clock w (clock_reads w' - 1))]"
      and "inner = [] \<or> (\<exists>t1 t2. inner = [executed_in ''center_view'' t1 t2])"
      and "nodes w' = set_segments i
             (apply_names names visible (node_segments (nodes w ! i))) (nodes w)"
proof -
  let ?w0 = "w\<lparr>clock_reads := Suc (clock_reads w)\<rparr>"
  let ?tic = "clock w (clock_reads w)"
  note unfold = set_segments_visibility_def bind_def time_time_def
  obtain r1 w1 where h: "get_segmentation_and_display_node name ?w0 = (r1, w1)"
    by (cases "get_segmentation_and_display_node name ?w0")
  from helper_run [OF h] obtain rest
    where c1: "calls w1 = calls w @ slicer_mrmlScene_GetNodesByName_call name # rest"
      and rest: "list_all is_helper_call rest"
      and f1: "fault w1 = fault w" "clock w1 = clock w" "clock_reads w1 = Suc (clock_reads w)"
        "log_lines w1 = log_lines w" "layout w1 = layout w"
    by auto
  let ?pre1 = "slicer_mrmlScene_GetNodesByName_call name # rest"
  have pre1: "list_all is_helper_call ?pre1"
    using rest by simp
  show ?thesis
  proof (cases r1)
    case (Inl e)
    with assms h have "r = Inl e" "w' = w1"
      by (simp_all add: unfold)
    moreover have "is_helper_call (last (calls w @ ?pre1))"
      by (rule last_append_list_all [OF pre1]) simp
    then have "is_helper_call (last (calls w1))"
      by (simp only: c1)
    then have "\<not> is_segment_call (last (calls w1))"
      by (intro setup_not_segment is_helper_setup)
    ultimately show ?thesis
      using c1 by (intro other [of e "last (calls w1)"]) simp_all
  next
    case (Inr p)
    obtain sn d where p: "p = (sn, d)"
      by (cases p)
    from helper_Inr [OF h [unfolded Inr p]]
    have d: "d = sn" and n1: "nodes w1 = nodes w" and byname: "nodes_by_name name (nodes w) = [sn]"
      and isa: "is_a (nodes w ! sn) ''vtkMRMLSegmentationNode''"
      by simp_all
    have len: "sn < length (nodes w)"
      using nodes_by_name_bound [of sn name "nodes w"] byname by simp
    note h' = h [unfolded Inr p d]
    let ?c2 = "GetSegmentation_call sn"
    let ?w2 = "w1\<lparr>calls := calls w1 @ [?c2]\<rparr>"
    show ?thesis
    proof (cases "fault w1 (calls w1) ?c2")
      case (Some e)
      then have g: "GetSegmentation sn w1 = (Inl e, ?w2)"
        using isa by (simp add: GetSegmentation_def segmentation_only_def remote_def Let_def n1)
      with assms h' have "r = Inl e" "w' = ?w2"
        by (simp_all add: unfold)
      then show ?thesis
        by (intro other [of e ?c2]) simp_all
    next
      case None
      then have g: "GetSegmentation sn w1 = (Inr sn, ?w2)"
        using isa
        by (simp add: GetSegmentation_def segmentation_only_def remote_def Let_def query_def n1)
      let ?c3 = "StartModify_call sn"
      let ?w3f = "?w2\<lparr>calls := calls ?w2 @ [?c3]\<rparr>"
      show ?thesis
      proof (cases "fault ?w2 (calls ?w2) ?c3")
        case (Some e)
        then have st: "StartModify sn ?w2 = (Inl e, ?w3f)"
          by (simp add: StartModify_def remote_def Let_def)
        with assms h' g have "r = Inl e" "w' = ?w3f"
          by (simp_all add: unfold)
        then show ?thesis
          by (intro other [of e ?c3]) simp_all
      next
        case no3: None
        let ?open = "(nodes w)[sn := (nodes w ! sn)\<lparr>batch_open := True\<rparr>]"
        let ?w3 = "w1\<lparr>calls := calls w1 @ [?c2, ?c3], nodes := ?open\<rparr>"
        let ?b = "batch_open (nodes w ! sn)"
        from no3 have st: "StartModify sn ?w2 = (Inr ?b, ?w3)"
          by (simp add: StartModify_def remote_def Let_def n1)
        let ?pre = "?pre1 @ [?c2, ?c3]"
        have pre: "list_all is_setup_call ?pre"
          using rest by (auto simp: list_all_iff is_helper_setup)
        have c3: "calls ?w3 = calls w @ ?pre"
          by (simp add: c1)
        let ?segs = "node_segments (nodes w ! sn)"
        obtain r4 w4 where lp: "set_each_segment sn sn names visible ?w3 = (r4, w4)"
          by (cases "set_each_segment sn sn names visible ?w3")
        have isa3: "is_a (nodes ?w3 ! sn) ''vtkMRMLSegmentationNode''"
          and len3: "sn < length (nodes ?w3)" and segs3: "node_segments (nodes ?w3 ! sn) = ?segs"
          using isa len by simp_all
        note run4 = set_each_segment_run [OF lp isa3 len3, unfolded segs3]
        from run4 have f4: "fault w4 = fault w" "clock w4 = clock w"
          "clock_reads w4 = Suc (clock_reads w)" "log_lines w4 = log_lines w"
          by (simp_all add: f1)
        show ?thesis
        proof (cases r4)
          case (Inl e)
          with assms h' g st lp have res: "r = Inl e" "w' = w4"
            by (simp_all add: unfold)
          from run4 Inl obtain k new where k: "k < length names"
            and nk: "nodes w4 = set_segments sn (apply_names (take k names) visible ?segs) ?open"
            and new: "calls w4 = calls ?w3 @ new" "new \<noteq> []" "list_all (segment_call_of sn visible) new"
              "fault ?w3 (calls ?w3 @ butlast new) (last new) = Some e"
            by auto
          have cw: "calls w4 = calls w @ ?pre @ new"
            using new(1) c3 by simp
          have "fault w (butlast (calls w4)) (last (calls w4)) = Some e"
            using new(2,4) unfolding cw c3 by (simp add: butlast_append f1)
          with res k nk new cw pre byname f4 show ?thesis
            by (intro in_loop [of e sn ?pre new k]) simp_all
        next
          case ok4: (Inr u)
          with run4 have c4: "calls w4 = calls w @ ?pre @ segment_calls sn names visible ?segs"
            and n4: "nodes w4 = set_segments sn (apply_names names visible ?segs) ?open"
            by (simp_all add: c1)
          let ?c5 = "EndModify_call sn ?b"
          let ?w5f = "w4\<lparr>calls := calls w4 @ [?c5]\<rparr>"
          show ?thesis
          proof (cases "fault w4 (calls w4) ?c5")
            case (Some e)
            then have en: "EndModify sn ?b w4 = (Inl e, ?w5f)"
              by (simp add: EndModify_def remote_def Let_def)
            with assms h' g st lp ok4 have "r = Inl e" "w' = ?w5f"
              by (simp_all add: unfold)
            then show ?thesis
              by (intro other [of e ?c5]) simp_all
          next
            case no5: None
            let ?w5 = "w4\<lparr>calls := calls w4 @ [?c5],
                         nodes := (nodes w4)[sn := (nodes w4 ! sn)\<lparr>batch_open := ?b\<rparr>]\<rparr>"
            from no5 have en: "EndModify sn ?b w4 = (Inr (), ?w5)"
              by (simp add: EndModify_def remote_def Let_def update_node_def)
            have n5: "nodes ?w5 = set_segments sn (apply_names names visible ?segs) (nodes w)"
              using len by (simp add: n4 set_segments_def)
            obtain r6 w6 where cv: "center_view ?w5 = (r6, w6)"
              by (cases "center_view ?w5")
            from center_view_summary [OF cv] obtain post msg inner
              where c6: "calls w6 = calls ?w5 @ slicer_app_layoutManager_call # post"
                and post: "list_all is_view_call post"
                and f6': "clock w6 = clock ?w5" and r6: "r6 = Inr msg"
                and l6': "log_lines w6 = log_lines ?w5 @ inner"
                and inner: "inner = [] \<or> (\<exists>t1 t2. inner = [executed_in ''center_view'' t1 t2])"
              by blast
            have f6: "clock w6 = clock w" and l6: "log_lines w6 = log_lines w @ inner"
              using f6' l6' f4 by simp_all
            have n6: "nodes w6 = nodes ?w5"
              using keeps_nodes_center_view cv unfolding keeps_nodes_def by blast
            let ?toc = "clock w6 (clock_reads w6)"
            from assms h' g st lp ok4 en cv r6
            have res: "r = Inr (''Segments '' @ join '', '' names @ '' in '' @ name @ '' are now '' @
                visible_or_hidden visible)"
              "w' = w6\<lparr>clock_reads := Suc (clock_reads w6),
                      log_lines := log_lines w6 @
                        [executed_in ''set_segments_visibility'' ?tic ?toc]\<rparr>"
              by (simp_all add: unfold logging_info_def return_def)
            have "calls w' = calls w @ ?pre @ segment_calls sn names visible ?segs @
                [?c5, slicer_app_layoutManager_call] @ post"
              using res(2) c6 c4 by simp
            moreover have "log_lines w' = log_lines w @ inner @
                [executed_in ''set_segments_visibility'' ?tic (clock w (clock_reads w' - 1))]"
              using res(2) l6 f6 by simp
            moreover have "nodes w' = set_segments sn (apply_names names visible ?segs) (nodes w)"
              using res(2) n6 n5 by simp
            ultimately show ?thesis
              using res(1) byname pre post inner by (intro returned [of sn ?pre post inner])
          qed
        qed
      qed
    qed
  qed
qed

lemma setup_call_kinds:
  "is_setup_call c \<Longrightarrow> c \<noteq> EndModify_call i b \<and> c \<noteq> slicer_app_layoutManager_call"
  by (cases c) simp_all


lemma view_call_kinds:
  "is_view_call c \<Longrightarrow> c \<noteq> slicer_app_layoutManager_call"
  by (cases c) simp_all



subsection \<open>set_segments_visibility\<close>

lemma count_list_absent: "x \<notin> set xs \<Longrightarrow> count_list xs x = 0"
  by (induction xs) auto

lemma segment_calls_kinds:
  "c \<in> set (segment_calls i names visible segs) \<Longrightarrow> c \<noteq> slicer_app_layoutManager_call"
  by (auto simp: segment_calls_def)

text \<open>
  C3, as the code has it: whenever \<^verbatim>\<open>set_segments_visibility\<close> returns, the calls it made
  are, in this order: the calls that resolve the node and open the batch region; for each
  segment name, whether or not it names a segment, the request for its identifier and the
  \<^verbatim>\<open>SetSegmentVisibility\<close> with what came back (the empty identifier for an unknown
  name); the \<^verbatim>\<open>EndModify\<close> that closes the region; the request for the layout manager,
  with which \<^verbatim>\<open>center_view\<close> starts; and then calls on the views only. The layout manager
  is asked for exactly once. The claim as stated, for every invocation and any node name,
  fails where the helper raises: then the view is not centred at all.
\<close>

theorem centers_view_once_after_region:
  assumes "set_segments_visibility name names visible w = (Inr text, w')"
  shows "\<exists>i pre post. nodes_by_name name (nodes w) = [i] \<and>
           calls w' = calls w @ pre @
             segment_calls i names visible (node_segments (nodes w ! i)) @
             [EndModify_call i (batch_open (nodes w ! i)), slicer_app_layoutManager_call] @ post \<and>
           list_all is_setup_call pre \<and> list_all is_view_call post \<and>
           count_list (drop (length (calls w)) (calls w')) slicer_app_layoutManager_call = 1"
  using assms
proof (cases rule: set_segments_visibility_cases)
  case (returned i pre post inner)
  let ?segs = "segment_calls i names visible (node_segments (nodes w ! i))"
  have "slicer_app_layoutManager_call \<notin> set pre"
    using returned(4) setup_call_kinds by (auto simp: list_all_iff)
  moreover have "slicer_app_layoutManager_call \<notin> set ?segs"
    using segment_calls_kinds by blast
  moreover have "slicer_app_layoutManager_call \<notin> set post"
    using returned(5) view_call_kinds by (auto simp: list_all_iff)
  ultimately have "count_list (pre @ ?segs @
      [EndModify_call i (batch_open (nodes w ! i)), slicer_app_layoutManager_call] @ post)
      slicer_app_layoutManager_call = 1"
    by (simp add: count_list_absent)
  then have "count_list (drop (length (calls w)) (calls w')) slicer_app_layoutManager_call = 1"
    unfolding returned(3) by simp
  with returned(2,3,4,5) show ?thesis
    by blast
qed simp_all



theorem centers_view_once_after_region_witness:
  "fst (set_segments_visibility ''Organs'' [''Spleen'', ''Nope''] True example_world) =
     Inr ''Segments Spleen, Nope in Organs are now visible'' \<and>
   calls (snd (set_segments_visibility ''Organs'' [''Spleen'', ''Nope''] True example_world)) =
     [slicer_mrmlScene_GetNodesByName_call ''Organs'', GetNumberOfItems_call [1],
      GetItemAsObject_call [1] 0, IsA_call 1 ''vtkMRMLSegmentationNode'', GetDisplayNode_call 1,
      GetSegmentation_call 1, StartModify_call 1,
      GetSegmentIdBySegmentName_call 1 ''Spleen'', SetSegmentVisibility_call 1 ''Segment_2'' True,
      GetSegmentIdBySegmentName_call 1 ''Nope'', SetSegmentVisibility_call 1 [] True,
      EndModify_call 1 False,
      slicer_app_layoutManager_call, threeDWidget_call 0, threeDView_call, resetFocalPoint_call,
      sliceWidget_call ''Red'', sliceController_call ''Red'', fitSliceToBackground_call ''Red'',
      sliceWidget_call ''Yellow'',
      sliceWidget_call ''Green'', sliceController_call ''Green'', fitSliceToBackground_call ''Green''] \<and>
   count_list (drop (length (calls example_world))
       (calls (snd (set_segments_visibility ''Organs'' [''Spleen'', ''Nope''] True example_world))))
     slicer_app_layoutManager_call = 1"
proof -
  let ?run = "set_segments_visibility ''Organs'' [''Spleen'', ''Nope''] True example_world"
  have r: "fst ?run = Inr ''Segments Spleen, Nope in Organs are now visible''"
    by (simp add: io_defs remote_defs facade_defs scene_defs)
  have c: "calls (snd ?run) =
     [slicer_mrmlScene_GetNodesByName_call ''Organs'', GetNumberOfItems_call [1],
      GetItemAsObject_call [1] 0, IsA_call 1 ''vtkMRMLSegmentationNode'', GetDisplayNode_call 1,
      GetSegmentation_call 1, StartModify_call 1,
      GetSegmentIdBySegmentName_call 1 ''Spleen'', SetSegmentVisibility_call 1 ''Segment_2'' True,
      GetSegmentIdBySegmentName_call 1 ''Nope'', SetSegmentVisibility_call 1 [] True,
      EndModify_call 1 False,
      slicer_app_layoutManager_call, threeDWidget_call 0, threeDView_call, resetFocalPoint_call,
      sliceWidget_call ''Red'', sliceController_call ''Red'', fitSliceToBackground_call ''Red'',
      sliceWidget_call ''Yellow'',
      sliceWidget_call ''Green'', sliceController_call ''Green'', fitSliceToBackground_call ''Green'']"
    by (simp add: io_defs remote_defs facade_defs scene_defs)
  have p: "?run = (Inr ''Segments Spleen, Nope in Organs are now visible'', snd ?run)"
    using r by (metis prod.collapse)
  from centers_view_once_after_region [OF p]
  have "count_list (drop (length (calls example_world)) (calls (snd ?run)))
      slicer_app_layoutManager_call = 1"
    by blast
  with r c show ?thesis
    by blast
qed

theorem centers_view_once_counterexample:
  "fst (set_segments_visibility ''Lungs'' [''Liver''] True example_world) =
     Inl (ValueError (''Expected exactly one node named '' @ quoted ''Lungs'' @ '', found 0'')) \<and>
   count_list (calls (snd (set_segments_visibility ''Lungs'' [''Liver''] True example_world)))
     slicer_app_layoutManager_call = 0"
  by (simp add: io_defs remote_defs facade_defs scene_defs str_nat.simps digit_char_def)

subsection \<open>The log line of a completed invocation\<close>

lemma timed_logs:
  assumes "bind time_time (\<lambda>tic. bind m (\<lambda>x. bind time_time (\<lambda>toc.
             bind (logging_info (executed_in name tic toc)) (\<lambda>_. return (g x))))) w = (Inr res, w')"
    and "steps K m"
  shows "log_lines w' = log_lines w @
           [executed_in name (clock w (clock_reads w)) (clock w (clock_reads w' - 1))]"
  using assms(1)
proof (elim bind_Inr)
  fix tic w0 x w1 toc w2 u w3
  assume 0: "time_time w = (Inr tic, w0)"
    and 1: "m w0 = (Inr x, w1)"
    and 2: "time_time w1 = (Inr toc, w2)"
    and 3: "logging_info (executed_in name tic toc) w2 = (Inr u, w3)"
    and 4: "return (g x) w3 = (Inr res, w')"
  from stepsD [OF assms(2) 1]
  have f: "clock w1 = clock w0" "clock_reads w1 = clock_reads w0" "log_lines w1 = log_lines w0"
    by (simp_all add: run_def)
  from time_time_Inr [OF 0] time_time_Inr [OF 2] logging_info_Inr [OF 3] 4 f show ?thesis
    by (auto simp: return_def)
qed

lemma bind_case_prod:
  "bind (case p of (a, b) \<Rightarrow> f a b) g = (case p of (a, b) \<Rightarrow> bind (f a b) g)"
  by (cases p) simp

lemma steps_any: "steps K m \<Longrightarrow> steps (\<lambda>c. True) m"
  by (erule steps_mono) simp

lemma get_node_by_class_logs:
  assumes "get_node_by_class class_name w = (Inr res, w')"
  shows "log_lines w' = log_lines w @
           [executed_in ''get_node_by_class'' (clock w (clock_reads w)) (clock w (clock_reads w' - 1))]"
proof (rule timed_logs)
  show "bind time_time (\<lambda>tic. bind (slicer_util_getNodesByClass class_name) (\<lambda>nodes.
          bind time_time (\<lambda>toc.
          bind (logging_info (executed_in ''get_node_by_class'' tic toc)) (\<lambda>_.
          return (join newline (if nodes \<noteq> []
                 then [class_name @ '' nodes:''] @ map (\<lambda>node. ''- '' @ node) nodes
                 else [''No '' @ class_name @ '' nodes found in scene'']))))))
        w = (Inr res, w')"
    using assms by (simp only: get_node_by_class_def Let_def)
  show "steps (\<lambda>c. True) (slicer_util_getNodesByClass class_name)"
    unfolding slicer_util_getNodesByClass_def by (intro steps_remote scene_only_query) simp
qed

lemma steps_segmentation_methods:
  "steps (\<lambda>c. True) (GetSegmentation i)"
  "steps (\<lambda>c. True) (GetVisibleSegmentIDs i)"
  "steps (\<lambda>c. True) (GetSegmentColor i sid buffer)"
  "steps (\<lambda>c. True) (SetAllSegmentsVisibility i visible)"
  "steps (\<lambda>c. True) (SetSegmentVisibility i sid visible)"
proof -
  have seg: "run (\<lambda>c. True) w w'"
    if "segmentation_only i cls name c act w = (r, w')" "scene_only act"
    for cls name c w w' and r :: "exn + 'a" and act :: "world \<Rightarrow> 'a \<times> world"
  proof -
    have "steps (\<lambda>c. True) (segmentation_only i cls name c act)"
      using that(2) by (intro steps_segmentation_only) simp_all
    with that(1) show ?thesis
      by (simp add: steps_def)
  qed
  show "steps (\<lambda>c. True) (GetSegmentation i)"
    unfolding steps_def GetSegmentation_def using seg scene_only_query by blast
  show "steps (\<lambda>c. True) (GetVisibleSegmentIDs i)"
    unfolding steps_def GetVisibleSegmentIDs_def using seg scene_only_query by blast
  show "steps (\<lambda>c. True) (GetSegmentColor i sid buffer)"
    unfolding steps_def GetSegmentColor_def using seg scene_only_query by blast
  show "steps (\<lambda>c. True) (SetAllSegmentsVisibility i visible)"
    unfolding steps_def SetAllSegmentsVisibility_def using seg scene_only_update_node by blast
  show "steps (\<lambda>c. True) (SetSegmentVisibility i sid visible)"
    unfolding steps_def SetSegmentVisibility_def using seg scene_only_update_node by blast
qed

lemma steps_segment_entries: "steps (\<lambda>c. True) (segment_entries sn d ids info)"
proof (induction ids arbitrary: info)
  case Nil
  show ?case by (simp add: steps_return)
next
  case (Cons sid ids)
  have "steps (\<lambda>c. True) (segment_entry sn d sid)"
    unfolding segment_entry_def Let_def GetSegment_def GetName_def
    by (intro steps_bind steps_segmentation_methods steps_remote scene_only_query
        steps_method_of steps_return) simp_all
  with Cons show ?case
    by (simp add: steps_bind)
qed

lemma get_visible_segments_logs:
  assumes "get_visible_segments name w = (Inr res, w')"
  shows "log_lines w' = log_lines w @
           [executed_in ''get_visible_segments'' (clock w (clock_reads w)) (clock w (clock_reads w' - 1))]"
proof (rule timed_logs)
  let ?mid = "bind (slicer_util_getNode name) (\<lambda>segmentationNode.
     bind (GetDisplayNode segmentationNode) (\<lambda>displayNode.
     method_of displayNode ''GetVisibleSegmentIDs'' (\<lambda>segmentationDisplayNode.
     bind (GetVisibleSegmentIDs segmentationDisplayNode) (\<lambda>visible_segment_ids.
     segment_entries segmentationNode segmentationDisplayNode visible_segment_ids []))))"
  show "bind time_time (\<lambda>tic. bind ?mid (\<lambda>info.
          bind time_time (\<lambda>toc.
          bind (logging_info (executed_in ''get_visible_segments'' tic toc)) (\<lambda>_.
          return (''The segmentation node '' @ name @
                '' contains the following visible segments: '' @ join '','' info))))) w = (Inr res, w')"
    using assms by (simp only: get_visible_segments_def Let_def bind_assoc method_of_bind)
  show "steps (\<lambda>c. True) ?mid"
    unfolding slicer_util_getNode_def GetDisplayNode_def
    by (intro steps_bind steps_segmentation_methods steps_remote scene_only_query
        steps_method_of steps_return steps_raise steps_case_option steps_segment_entries) simp_all
qed

lemma scene_only_StartModify:
  "scene_only (\<lambda>w. (batch_open (nodes w ! d),
              w\<lparr>nodes := (nodes w)[d := (nodes w ! d)\<lparr>batch_open := True\<rparr>]\<rparr>))"
  by (simp add: scene_only_def)

lemma set_all_segments_visibility_logs:
  assumes "set_all_segments_visibility name visible w = (Inr res, w')"
  shows "log_lines w' = log_lines w @
           [executed_in ''set_all_segments_visibility'' (clock w (clock_reads w))
              (clock w (clock_reads w' - 1))]"
proof (rule timed_logs)
  let ?mid = "bind (get_segmentation_and_display_node name) (\<lambda>(segmentationNode, displayNode).
     bind (StartModify displayNode) (\<lambda>wasModified.
     bind (SetAllSegmentsVisibility displayNode visible) (\<lambda>_.
     EndModify displayNode wasModified)))"
  show "bind time_time (\<lambda>tic. bind ?mid (\<lambda>u.
          bind time_time (\<lambda>toc.
          bind (logging_info (executed_in ''set_all_segments_visibility'' tic toc)) (\<lambda>_.
          return (''All segments in '' @ name @ '' are now '' @ visible_or_hidden visible))))) w =
        (Inr res, w')"
    using assms by (simp only: set_all_segments_visibility_def bind_assoc bind_case_prod)
  have "steps (\<lambda>c. True) (get_segmentation_and_display_node name)"
    unfolding steps_def using helper_run by (fastforce simp: run_def list_all_iff)
  then show "steps (\<lambda>c. True) ?mid"
    unfolding StartModify_def EndModify_def
    by (intro steps_bind steps_segmentation_methods steps_remote scene_only_update_node
        scene_only_StartModify) (auto intro!: steps_bind steps_segmentation_methods steps_remote
        scene_only_update_node scene_only_StartModify)
qed

lemma logged_line:
  "executed_in name tic toc = name @ '' executed in '' @ format_f 4 (Finite (toc - tic)) @ '' seconds''"
  by (simp add: executed_in_def)

text \<open>
  C2, as the code has it: every invocation of a tool that returns, other than a
  \<^verbatim>\<open>center_view\<close> that returns its error text, has appended to the log the line
  \<^verbatim>\<open><name> executed in <seconds> seconds\<close> with the tool's name and the difference of
  the last and the first reading of the clock it took, printed with exactly four
  decimals. It is the last line appended and the only one with that name; the only
  other line an invocation can append is the line of the \<^verbatim>\<open>center_view\<close> that
  \<^verbatim>\<open>set_segments_visibility\<close> calls. The claim as stated fails on the path where
  \<^verbatim>\<open>center_view\<close> catches an exception: it returns its text and logs nothing.
\<close>

theorem completion_is_logged:
  assumes "invoke request w = (Inr text, w')"
    and "request = Center_view \<longrightarrow> text = ''Successfully centered all views''"
  shows "\<exists>inner. log_lines w' = log_lines w @ inner @
             [tool_name request @ '' executed in '' @
              format_f 4 (Finite (clock w (clock_reads w' - 1) - clock w (clock_reads w))) @
              '' seconds''] \<and>
           has_decimals 4
             (format_f 4 (Finite (clock w (clock_reads w' - 1) - clock w (clock_reads w)))) \<and>
           (inner = [] \<or>
            tool_name request = ''set_segments_visibility'' \<and>
            (\<exists>t1 t2. inner = [''center_view'' @ '' executed in '' @
                                format_f 4 (Finite (t2 - t1)) @ '' seconds'']))"
proof -
  let ?line = "executed_in (tool_name request) (clock w (clock_reads w)) (clock w (clock_reads w' - 1))"
  have "\<exists>inner. log_lines w' = log_lines w @ inner @ [?line] \<and>
      (inner = [] \<or> tool_name request = ''set_segments_visibility'' \<and>
         (\<exists>t1 t2. inner = [executed_in ''center_view'' t1 t2]))"
  proof (cases request)
    case (Get_node_by_class class_name)
    with assms(1) get_node_by_class_logs [of class_name w "text" w'] show ?thesis
      by simp
  next
    case (Get_visible_segments segmentation_node)
    with assms(1) get_visible_segments_logs [of segmentation_node w "text" w'] show ?thesis
      by simp
  next
    case (Set_all_segments_visibility name visible)
    with assms(1) set_all_segments_visibility_logs [of name visible w "text" w'] show ?thesis
      by simp
  next
    case (Set_segments_visibility name names visible)
    with assms(1) have "set_segments_visibility name names visible w = (Inr text, w')"
      by simp
    then show ?thesis
    proof (cases rule: set_segments_visibility_cases)
      case (returned i pre post inner)
      with Set_segments_visibility show ?thesis
        by auto
    qed simp_all
  next
    case Center_view
    with assms have cv: "center_view w = (Inr ''Successfully centered all views'', w')"
      by simp
    from center_view_run [OF cv]
    have "clock_reads w' = Suc (Suc (clock_reads w))"
      "log_lines w' = log_lines w @
          [executed_in ''center_view'' (clock w (clock_reads w)) (clock w (Suc (clock_reads w)))]"
      by auto
    with Center_view show ?thesis
      by simp
  qed
  moreover have "has_decimals 4
      (format_f 4 (Finite (clock w (clock_reads w' - 1) - clock w (clock_reads w))))"
    by (rule format_f_decimals) simp_all
  ultimately show ?thesis
    unfolding logged_line by blast
qed

theorem completion_is_logged_counterexample:
  "fst (invoke Center_view headless_world) =
     Inr (''Error centering views: '' @ quoted ''NoneType'' @ '' object has no attribute '' @
          quoted ''threeDWidget'') \<and>
   log_lines headless_world = [] \<and>
   log_lines (snd (invoke Center_view headless_world)) = []"
  by (simp add: io_defs remote_defs facade_defs scene_defs)

theorem completion_is_logged_witness:
  "fst (invoke (Set_segments_visibility ''Organs'' [''Spleen'', ''Nope''] True) example_world) =
     Inr ''Segments Spleen, Nope in Organs are now visible'' \<and>
   Set_segments_visibility ''Organs'' [''Spleen'', ''Nope''] True \<noteq> Center_view \<and>
   log_lines example_world = [] \<and>
   log_lines (snd (invoke (Set_segments_visibility ''Organs'' [''Spleen'', ''Nope''] True)
     example_world)) =
     [''center_view executed in 0.1250 seconds'',
      ''set_segments_visibility executed in 0.3750 seconds''] \<and>
   has_decimals 4 (format_f 4 (Finite (clock example_world
     (clock_reads (snd (invoke (Set_segments_visibility ''Organs'' [''Spleen'', ''Nope''] True)
        example_world)) - 1) - clock example_world (clock_reads example_world))))"
proof -
  let ?request = "Set_segments_visibility ''Organs'' [''Spleen'', ''Nope''] True"
  let ?run = "invoke ?request example_world"
  have r: "fst ?run = Inr ''Segments Spleen, Nope in Organs are now visible''"
    by (simp add: io_defs remote_defs facade_defs scene_defs)
  have n: "?request \<noteq> Center_view"
    by simp
  have f: "format_fixed 4 (1 / 8) = ''0.1250''" "format_fixed 4 (3 / 8) = ''0.3750''"
    by code_simp+
  have l: "log_lines (snd ?run) =
     [''center_view executed in 0.1250 seconds'',
      ''set_segments_visibility executed in 0.3750 seconds'']"
    by (simp add: io_defs remote_defs facade_defs scene_defs executed_in_def f)
  have e: "log_lines example_world = []"
    by (simp add: example_world_def)
  have p: "?run = (Inr ''Segments Spleen, Nope in Organs are now visible'', snd ?run)"
    using r by (metis prod.collapse)
  from n have q: "?request = Center_view \<longrightarrow>
      ''Segments Spleen, Nope in Organs are now visible'' = ''Successfully centered all views''"
    by blast
  from completion_is_logged [OF p q]
  have "has_decimals 4 (format_f 4 (Finite (clock example_world (clock_reads (snd ?run) - 1) -
      clock example_world (clock_reads example_world))))"
    by blast
  with r n l e show ?thesis
    by blast
qed

end
